theory Spec2Isabelle
  imports Complex_Main
begin

section \<open>Python's \<open>decimal.Decimal\<close>, as the module uses it\<close>

text \<open>
  \<open>Money\<close> wraps a \<open>decimal.Decimal\<close>. A finite \<open>Decimal\<close> is the triple
  \<open>(_sign, _int, _exp)\<close> of a sign, a non-negative coefficient and an exponent, and
  denotes \<open>(-1)^_sign * _int * 10^_exp\<close>. Every arithmetic operation computes the exact
  result and then rounds it to the precision of the current context (\<open>_fix\<close>). The module
  never installs a context of its own, so the operations run under Python's default
  context: 28 significant digits, \<open>ROUND_HALF_EVEN\<close>, with the traps
  \<open>InvalidOperation\<close> and \<open>DivisionByZero\<close> raising. The exponent limits
  \<open>Emin\<close>/\<open>Emax\<close> (\<open>\<plusminus>999999\<close>), NaN and the infinities are outside the model:
  amounts are finite and far from those limits.
\<close>

datatype error = TypeError | AttributeError | ValueError | InvalidOperation | DivisionByZero

datatype decimal = Decimal (d_sign: bool) (d_int: nat) (d_exp: int)

definition context_prec :: nat where
  "context_prec = 28"

text \<open>\<open>len(str(n))\<close>: the number of decimal digits of a coefficient.\<close>

fun ndigits :: "nat \<Rightarrow> nat" where
  "ndigits n = (if n < 10 then 1 else Suc (ndigits (n div 10)))"

declare ndigits.simps [simp del]

text \<open>
  The same count by comparison with \<open>10\<close>, \<open>100\<close>, \<open>1000\<close> and so on; it is equal to
  \<open>ndigits\<close> (lemma \<open>ndigits_numeral\<close>) and evaluates faster on long literals.
\<close>

function ndigits_from :: "nat \<Rightarrow> nat \<Rightarrow> nat \<Rightarrow> nat" where
  "ndigits_from n k pw = (if n < pw \<or> pw = 0 then k else ndigits_from n (k + 1) (10 * pw))"
  by pat_completeness auto
termination
  by (relation "measure (\<lambda>(n, k, pw). Suc n - pw)") auto

declare ndigits_from.simps [simp del]

text \<open>The signed coefficient, and the rational number a \<open>Decimal\<close> denotes.\<close>

definition d_sint :: "decimal \<Rightarrow> int" where
  "d_sint d = (if d_sign d then - int (d_int d) else int (d_int d))"

definition decimal_val :: "decimal \<Rightarrow> rat" where
  "decimal_val d = of_int (d_sint d) * 10 powi (d_exp d)"

text \<open>
  \<open>ROUND_HALF_EVEN\<close> of \<open>c / 10^k\<close> to an integer: to the nearest, a tie to the even
  neighbour.
\<close>

definition round_half_even :: "nat \<Rightarrow> nat \<Rightarrow> nat" where
  "round_half_even c k =
     (let q = c div 10 ^ k; r = c mod 10 ^ k
      in if 10 ^ k < 2 * r \<or> (2 * r = 10 ^ k \<and> odd q) then q + 1 else q)"

text \<open>
  \<open>Decimal._fix\<close>: a coefficient of more than \<open>p\<close> digits is rounded to \<open>p\<close> digits; when
  the rounding carries into a further digit (\<open>99..9\<close> to \<open>100..0\<close>) the last zero is dropped.
\<close>

definition decimal_fix :: "nat \<Rightarrow> decimal \<Rightarrow> decimal" where
  "decimal_fix p d =
     (if d_int d = 0 \<or> ndigits (d_int d) \<le> p then d
      else
        (let k = ndigits (d_int d) - p; q = round_half_even (d_int d) k
         in if p < ndigits q then Decimal (d_sign d) (q div 10) (d_exp d + int k + 1)
            else Decimal (d_sign d) q (d_exp d + int k)))"

text \<open>\<open>Decimal(n)\<close> for a Python int.\<close>

definition decimal_of_int :: "int \<Rightarrow> decimal" where
  "decimal_of_int n = Decimal (n < 0) (nat \<bar>n\<bar>) 0"

text \<open>
  \<open>Decimal.__add__\<close>: the operands are aligned to the smaller exponent and added exactly;
  a zero sum of two zeros is negative only when both are, a sum that cancels is \<open>+0\<close>.
\<close>

definition decimal_add :: "decimal \<Rightarrow> decimal \<Rightarrow> decimal" where
  "decimal_add a b =
     (let m = min (d_exp a) (d_exp b);
          z = d_sint a * 10 ^ nat (d_exp a - m) + d_sint b * 10 ^ nat (d_exp b - m)
      in decimal_fix context_prec
           (Decimal (if z = 0 then d_sign a \<and> d_sign b else z < 0) (nat \<bar>z\<bar>) m))"

text \<open>\<open>Decimal.__neg__\<close> and \<open>Decimal.__abs__\<close>: a zero loses its sign; both round.\<close>

definition decimal_neg :: "decimal \<Rightarrow> decimal" where
  "decimal_neg a =
     decimal_fix context_prec (Decimal (d_int a \<noteq> 0 \<and> \<not> d_sign a) (d_int a) (d_exp a))"

definition decimal_abs :: "decimal \<Rightarrow> decimal" where
  "decimal_abs a = decimal_fix context_prec (Decimal False (d_int a) (d_exp a))"

text \<open>\<open>Decimal.__mul__\<close>.\<close>

definition decimal_mul :: "decimal \<Rightarrow> decimal \<Rightarrow> decimal" where
  "decimal_mul a b =
     decimal_fix context_prec
       (Decimal (d_sign a \<noteq> d_sign b) (d_int a * d_int b) (d_exp a + d_exp b))"

text \<open>
  \<open>Decimal.__truediv__\<close>. \<open>0 / 0\<close> signals \<open>DivisionUndefined\<close>, an
  \<open>InvalidOperation\<close>; \<open>x / 0\<close> signals \<open>DivisionByZero\<close>. Otherwise the quotient is
  computed to \<open>prec + 1\<close> digits; an inexact quotient gets a sticky last digit so that
  \<open>_fix\<close> rounds correctly, an exact one is brought as close to the ideal exponent
  as it goes.
\<close>

function strip_zeros :: "nat \<Rightarrow> int \<Rightarrow> int \<Rightarrow> nat \<times> int" where
  "strip_zeros coeff e ideal =
     (if e < ideal \<and> coeff mod 10 = 0
      then strip_zeros (coeff div 10) (e + 1) ideal
      else (coeff, e))"
  by pat_completeness auto
termination
  by (relation "measure (\<lambda>(coeff, e, ideal). nat (ideal - e))") auto

declare strip_zeros.simps [simp del]

definition decimal_truediv :: "decimal \<Rightarrow> decimal \<Rightarrow> error + decimal" where
  "decimal_truediv a b =
     (let sign = (d_sign a \<noteq> d_sign b)
      in if d_int b = 0 then (if d_int a = 0 then Inl InvalidOperation else Inl DivisionByZero)
         else if d_int a = 0
         then Inr (decimal_fix context_prec (Decimal sign 0 (d_exp a - d_exp b)))
         else
           (let shift = int (ndigits (d_int b)) - int (ndigits (d_int a)) + int context_prec + 1;
                e = d_exp a - d_exp b - shift;
                num = (if 0 \<le> shift then d_int a * 10 ^ nat shift else d_int a);
                den = (if 0 \<le> shift then d_int b else d_int b * 10 ^ nat (- shift));
                coeff = num div den;
                remainder = num mod den
            in if remainder \<noteq> 0
               then Inr (decimal_fix context_prec
                      (Decimal sign (if coeff mod 5 = 0 then coeff + 1 else coeff) e))
               else (case strip_zeros coeff e (d_exp a - d_exp b) of
                       (c, e') \<Rightarrow> Inr (decimal_fix context_prec (Decimal sign c e')))))"

text \<open>Comparison is by value: \<open>Decimal('1.0') == Decimal('1')\<close>.\<close>

definition decimal_eq :: "decimal \<Rightarrow> decimal \<Rightarrow> bool" where
  "decimal_eq a b =
     (let m = min (d_exp a) (d_exp b)
      in d_sint a * 10 ^ nat (d_exp a - m) = d_sint b * 10 ^ nat (d_exp b - m))"

definition decimal_lt :: "decimal \<Rightarrow> decimal \<Rightarrow> bool" where
  "decimal_lt a b =
     (let m = min (d_exp a) (d_exp b)
      in d_sint a * 10 ^ nat (d_exp a - m) < d_sint b * 10 ^ nat (d_exp b - m))"

definition decimal_gt :: "decimal \<Rightarrow> decimal \<Rightarrow> bool" where
  "decimal_gt a b = decimal_lt b a"

text \<open>\<open>bool(d)\<close>: a \<open>Decimal\<close> is truthy when it is not zero.\<close>

definition decimal_bool :: "decimal \<Rightarrow> bool" where
  "decimal_bool d = (d_int d \<noteq> 0)"

text \<open>
  \<open>Decimal._rescale\<close> and \<open>Decimal.quantize\<close>: the value at a given exponent, padded with
  zeros or rounded half-even; \<open>quantize\<close> raises \<open>InvalidOperation\<close> when the result
  would need more than \<open>p\<close> digits. \<open>round(d, n)\<close> is \<open>d.quantize(Decimal('1E-n'))\<close> under the
  current context.
\<close>

definition decimal_rescale :: "decimal \<Rightarrow> int \<Rightarrow> decimal" where
  "decimal_rescale d e =
     (if d_int d = 0 then Decimal (d_sign d) 0 e
      else if e \<le> d_exp d then Decimal (d_sign d) (d_int d * 10 ^ nat (d_exp d - e)) e
      else Decimal (d_sign d) (round_half_even (d_int d) (nat (e - d_exp d))) e)"

definition decimal_quantize :: "nat \<Rightarrow> decimal \<Rightarrow> int \<Rightarrow> error + decimal" where
  "decimal_quantize p d e =
     (if d_int d = 0 then Inr (Decimal (d_sign d) 0 e)
      else if int p < int (ndigits (d_int d)) + d_exp d - e then Inl InvalidOperation
      else
        (let ans = decimal_rescale d e
         in if p < ndigits (d_int ans) then Inl InvalidOperation else Inr ans))"

definition decimal_round :: "decimal \<Rightarrow> int \<Rightarrow> error + decimal" where
  "decimal_round d n = decimal_quantize context_prec d (- n)"

section \<open>The value classes\<close>

datatype money = Money (amount: decimal)

datatype money_with_vat_ratio = MoneyWithVATRatio (net_ratio: decimal) (gross_ratio: decimal)

datatype money_with_vat = MoneyWithVAT (net: money) (tax: money)

subsection \<open>\<open>Money\<close>\<close>

text \<open>
  The operators of \<open>Money\<close> on operands of the expected type: \<open>a + b\<close>, \<open>-a\<close>,
  \<open>a - b\<close> (which the source computes as \<open>a.__add__(-b)\<close>), \<open>abs(a)\<close>, \<open>a * d\<close> and
  \<open>d * a\<close> for a \<open>Decimal\<close> \<open>d\<close>, \<open>a / b\<close> and \<open>a / d\<close>, \<open>bool(a)\<close>, the
  comparisons and \<open>round\<close>.
\<close>

definition money_add :: "money \<Rightarrow> money \<Rightarrow> money" where
  "money_add self other = Money (decimal_add (amount self) (amount other))"

definition money_neg :: "money \<Rightarrow> money" where
  "money_neg self = Money (decimal_neg (amount self))"

definition money_sub :: "money \<Rightarrow> money \<Rightarrow> money" where
  "money_sub self other = money_add self (money_neg other)"

definition money_abs :: "money \<Rightarrow> money" where
  "money_abs self = Money (decimal_abs (amount self))"

definition money_mul :: "money \<Rightarrow> decimal \<Rightarrow> money" where
  "money_mul self other = Money (decimal_mul (amount self) other)"

definition money_truediv_money :: "money \<Rightarrow> money \<Rightarrow> error + decimal" where
  "money_truediv_money self other = decimal_truediv (amount self) (amount other)"

definition money_truediv :: "money \<Rightarrow> decimal \<Rightarrow> error + money" where
  "money_truediv self other =
     (case decimal_truediv (amount self) other of Inl e \<Rightarrow> Inl e | Inr d \<Rightarrow> Inr (Money d))"

definition money_bool :: "money \<Rightarrow> bool" where
  "money_bool self = decimal_bool (amount self)"

definition money_eq :: "money \<Rightarrow> money \<Rightarrow> bool" where
  "money_eq self other = decimal_eq (amount self) (amount other)"

definition money_lt :: "money \<Rightarrow> money \<Rightarrow> bool" where
  "money_lt self other = decimal_lt (amount self) (amount other)"

definition money_gt :: "money \<Rightarrow> money \<Rightarrow> bool" where
  "money_gt self other = decimal_gt (amount self) (amount other)"

definition money_round :: "money \<Rightarrow> int \<Rightarrow> error + money" where
  "money_round self n =
     (case decimal_round (amount self) n of Inl e \<Rightarrow> Inl e | Inr d \<Rightarrow> Inr (Money d))"

subsection \<open>\<open>MoneyWithVAT\<close>\<close>

text \<open>The property \<open>gross\<close>: \<open>return self.net + self.tax\<close>, computed at each access.\<close>

definition gross :: "money_with_vat \<Rightarrow> money" where
  "gross self = money_add (net self) (tax self)"

definition money_with_vat_eq :: "money_with_vat \<Rightarrow> money_with_vat \<Rightarrow> bool" where
  "money_with_vat_eq self other = (money_eq (net self) (net other) \<and> money_eq (tax self) (tax other))"

definition money_with_vat_bool :: "money_with_vat \<Rightarrow> bool" where
  "money_with_vat_bool self = (money_bool (net self) \<or> money_bool (tax self))"

subsection \<open>\<open>MoneyWithVAT.max\<close>\<close>

text \<open>
  Python's built-in \<open>max\<close> over an iterable: the first item is the candidate, a later item
  replaces it when \<open>item > candidate\<close>; an empty iterable raises \<open>ValueError\<close>.
\<close>

fun max_loop :: "('a \<Rightarrow> 'a \<Rightarrow> bool) \<Rightarrow> 'a \<Rightarrow> 'a list \<Rightarrow> 'a" where
  "max_loop gt maxval [] = maxval"
| "max_loop gt maxval (item # items) = max_loop gt (if gt item maxval then item else maxval) items"

definition builtin_max :: "('a \<Rightarrow> 'a \<Rightarrow> bool) \<Rightarrow> 'a list \<Rightarrow> error + 'a" where
  "builtin_max gt xs = (case xs of [] \<Rightarrow> Inl ValueError | x # items \<Rightarrow> Inr (max_loop gt x items))"

text \<open>
  \<open>MoneyWithVAT.max(*args)\<close>: each positional argument is a \<open>MoneyWithVAT\<close> or a sequence
  of them. \<open>moneys = args[0] if len(args) == 1 else args\<close>; a lone \<open>MoneyWithVAT\<close> is then
  iterated (\<open>TypeError\<close>), and a sequence among several arguments has no attribute
  \<open>net\<close> (\<open>AttributeError\<close>).
\<close>

datatype max_arg = Operand money_with_vat | OperandSeq "money_with_vat list"

fun operands :: "max_arg list \<Rightarrow> error + money_with_vat list" where
  "operands [] = Inr []"
| "operands (Operand m # args) =
     (case operands args of Inl e \<Rightarrow> Inl e | Inr ms \<Rightarrow> Inr (m # ms))"
| "operands (OperandSeq ms # args) = Inl AttributeError"

definition MoneyWithVAT_max :: "max_arg list \<Rightarrow> error + money_with_vat" where
  "MoneyWithVAT_max args =
     (case (if length args = 1
            then (case hd args of OperandSeq ms \<Rightarrow> Inr ms | Operand m \<Rightarrow> Inl TypeError)
            else operands args) of
        Inl e \<Rightarrow> Inl e
      | Inr moneys \<Rightarrow>
          (case builtin_max money_gt (map net moneys) of
             Inl e \<Rightarrow> Inl e
           | Inr max_amount \<Rightarrow>
               (case builtin_max money_gt (map gross moneys) of
                  Inl e \<Rightarrow> Inl e
                | Inr max_gross \<Rightarrow>
                    Inr (MoneyWithVAT max_amount (money_sub max_gross max_amount)))))"

text \<open>The operands \<open>(100, 19), (112, 999), (1, 2), (99999, 0)\<close> of the test of \<open>max\<close>.\<close>

definition max_fixture :: "money_with_vat list" where
  "max_fixture =
     [MoneyWithVAT (Money (decimal_of_int 100)) (Money (decimal_of_int 19)),
      MoneyWithVAT (Money (decimal_of_int 112)) (Money (decimal_of_int 999)),
      MoneyWithVAT (Money (decimal_of_int 1)) (Money (decimal_of_int 2)),
      MoneyWithVAT (Money (decimal_of_int 99999)) (Money (decimal_of_int 0))]"

subsection \<open>Python values\<close>

text \<open>
  The operators and class methods of the module receive arbitrary Python objects. The
  universe of values considered: \<open>None\<close>, \<open>bool\<close>, \<open>int\<close>, \<open>str\<close>, \<open>Decimal\<close>, the three
  classes of the module, and the singleton \<open>NotImplemented\<close> that a binary special method
  returns to decline an operand. Floats are not modelled.
\<close>

datatype pyval =
    PNone
  | PBool bool
  | PInt int
  | PStr string
  | PDecimal decimal
  | PMoney money
  | PMoneyWithVAT money_with_vat
  | PMoneyWithVATRatio money_with_vat_ratio
  | PNotImplemented

subsection \<open>\<open>tax_rate\<close> and \<open>tax_rate_for_display\<close>\<close>

definition tax_rate :: "money_with_vat \<Rightarrow> error + decimal" where
  "tax_rate self =
     (if decimal_eq (amount (net self)) (decimal_of_int 0) then Inr (decimal_of_int 0)
      else money_truediv_money (tax self) (net self))"

text \<open>
  The catalogues of rates, \<open>Decimal("0.19")\<close> and so on. \<open>_KNOWN_VAT_RATES\<close> is
  \<open>tuple(set(GERMAN_VAT_RATES + _AUSTRIAN_VAT_RATES + _DENMARK_VAT_RATES))\<close>: the distinct
  rates in the iteration order of a Python set, which the source does not determine. The
  order is a parameter of \<open>tax_rate_for_display\<close>; \<open>is_KNOWN_VAT_RATES\<close> says what any such
  order is.
\<close>

definition GERMAN_VAT_RATES :: "decimal list" where
  "GERMAN_VAT_RATES =
     [Decimal False 19 (- 2), Decimal False 16 (- 2), Decimal False 7 (- 2),
      Decimal False 5 (- 2), Decimal False 0 0]"

definition AUSTRIAN_VAT_RATES :: "decimal list" where
  "AUSTRIAN_VAT_RATES = [Decimal False 20 (- 2), Decimal False 13 (- 2), Decimal False 10 (- 2),
      Decimal False 0 0]"

definition DENMARK_VAT_RATES :: "decimal list" where
  "DENMARK_VAT_RATES = [Decimal False 25 (- 2)]"

definition is_KNOWN_VAT_RATES :: "decimal list \<Rightarrow> bool" where
  "is_KNOWN_VAT_RATES rates \<longleftrightarrow>
     distinct rates \<and> set rates = set (GERMAN_VAT_RATES @ AUSTRIAN_VAT_RATES @ DENMARK_VAT_RATES)"

text \<open>The test of the loop body: \<open>abs(rate * self._net - self._tax).amount < Decimal("0.05")\<close>.\<close>

definition vat_diff_small :: "money_with_vat \<Rightarrow> decimal \<Rightarrow> bool" where
  "vat_diff_small self rate =
     (let vat = money_mul (net self) rate;
          vat_diff = money_abs (money_sub vat (tax self))
      in decimal_lt (amount vat_diff) (Decimal False 5 (- 2)))"

fun scan_rates :: "money_with_vat \<Rightarrow> decimal list \<Rightarrow> decimal option" where
  "scan_rates self [] = None"
| "scan_rates self (rate # rates) =
     (if vat_diff_small self rate then Some rate else scan_rates self rates)"

definition tax_rate_for_display :: "decimal list \<Rightarrow> money_with_vat \<Rightarrow> error + decimal" where
  "tax_rate_for_display KNOWN_VAT_RATES self =
     (case tax_rate self of
        Inl e \<Rightarrow> Inl e
      | Inr rate0 \<Rightarrow>
          if list_ex (decimal_eq rate0) KNOWN_VAT_RATES then Inr rate0
          else (case scan_rates self KNOWN_VAT_RATES of
                  Some rate \<Rightarrow> Inr rate
                | None \<Rightarrow> Inr rate0))"

subsection \<open>Rounding to cents, \<open>ratio\<close> and \<open>safe_ratio\<close>\<close>

definition rounded_to_cents :: "money_with_vat \<Rightarrow> error + money_with_vat" where
  "rounded_to_cents self =
     (case money_round (net self) 2 of
        Inl e \<Rightarrow> Inl e
      | Inr rounded_net \<Rightarrow>
          (case money_round (gross self) 2 of
             Inl e \<Rightarrow> Inl e
           | Inr rounded_gross \<Rightarrow> Inr (MoneyWithVAT rounded_net (money_sub rounded_gross rounded_net))))"

definition from_money_with_vat :: "money_with_vat \<Rightarrow> money_with_vat \<Rightarrow> error + money_with_vat_ratio" where
  "from_money_with_vat dividend divisor =
     (case money_truediv_money (net dividend) (net divisor) of
        Inl e \<Rightarrow> Inl e
      | Inr n \<Rightarrow>
          (case money_truediv_money (gross dividend) (gross divisor) of
             Inl e \<Rightarrow> Inl e
           | Inr g \<Rightarrow> Inr (MoneyWithVATRatio n g)))"

definition isinstance_MoneyWithVAT :: "pyval \<Rightarrow> bool" where
  "isinstance_MoneyWithVAT v = (case v of PMoneyWithVAT m \<Rightarrow> True | _ \<Rightarrow> False)"

definition ratio :: "pyval \<Rightarrow> pyval \<Rightarrow> error + money_with_vat_ratio" where
  "ratio dividend divisor =
     (case (dividend, divisor) of
        (PMoneyWithVAT a, PMoneyWithVAT b) \<Rightarrow> from_money_with_vat a b
      | _ \<Rightarrow> Inl TypeError)"




text \<open>
  One iteration order of the set of known rates (the one CPython gives for these nine
  values), and values used in examples.
\<close>

definition catalogue_order :: "decimal list" where
  "catalogue_order =
     [Decimal False 0 0, Decimal False 25 (- 2), Decimal False 19 (- 2), Decimal False 5 (- 2),
      Decimal False 16 (- 2), Decimal False 13 (- 2), Decimal False 10 (- 2), Decimal False 7 (- 2),
      Decimal False 20 (- 2)]"

definition display_fixture :: money_with_vat where
  "display_fixture = MoneyWithVAT (Money (decimal_of_int 100)) (Money (Decimal False 1900912 (- 5)))"

definition vat :: "int \<Rightarrow> int \<Rightarrow> money_with_vat" where
  "vat n t = MoneyWithVAT (Money (decimal_of_int n)) (Money (decimal_of_int t))"

subsection \<open>\<open>MoneyWithVATRatio * MoneyWithVAT\<close>\<close>

text \<open>
  The branch \<open>isinstance(other, MoneyWithVAT)\<close> of \<open>MoneyWithVATRatio.__mul__\<close>:
  \<open>amount = self.net_ratio * other.net\<close>, then
  \<open>MoneyWithVAT(net=amount, tax=other.gross * self.gross_ratio - amount)\<close>. Both products
  are \<open>Money.__mul__\<close> with a \<open>Decimal\<close> (the first through \<open>__rmul__\<close>).
\<close>

definition MoneyWithVATRatio_mul_vat :: "money_with_vat_ratio \<Rightarrow> money_with_vat \<Rightarrow> money_with_vat" where
  "MoneyWithVATRatio_mul_vat self other =
     (let amount' = money_mul (net other) (net_ratio self)
      in MoneyWithVAT amount' (money_sub (money_mul (gross other) (gross_ratio self)) amount'))"

subsection \<open>Operators on arbitrary operands\<close>

text \<open>
  \<open>isinstance(v, int)\<close> holds of an \<open>int\<close> and of a \<open>bool\<close> (\<open>False == 0\<close>); \<open>Decimal\<close>
  arithmetic accepts a \<open>Decimal\<close> or such an int (\<open>_convert_other\<close>).
\<close>

definition as_int :: "pyval \<Rightarrow> int option" where
  "as_int v = (case v of PInt n \<Rightarrow> Some n | PBool b \<Rightarrow> Some (if b then 1 else 0) | _ \<Rightarrow> None)"

definition convert_other :: "pyval \<Rightarrow> decimal option" where
  "convert_other v =
     (case v of PDecimal d \<Rightarrow> Some d
      | _ \<Rightarrow> (case as_int v of Some n \<Rightarrow> Some (decimal_of_int n) | None \<Rightarrow> None))"

datatype pytype =
  NoneType | BoolType | IntType | StrType | DecimalType | MoneyType | MoneyWithVATType
  | MoneyWithVATRatioType | NotImplementedType

definition type_of :: "pyval \<Rightarrow> pytype" where
  "type_of v =
     (case v of PNone \<Rightarrow> NoneType | PBool b \<Rightarrow> BoolType | PInt n \<Rightarrow> IntType | PStr s \<Rightarrow> StrType
      | PDecimal d \<Rightarrow> DecimalType | PMoney m \<Rightarrow> MoneyType | PMoneyWithVAT m \<Rightarrow> MoneyWithVATType
      | PMoneyWithVATRatio r \<Rightarrow> MoneyWithVATRatioType | PNotImplemented \<Rightarrow> NotImplementedType)"

text \<open>The typed cores of the remaining operators of the two VAT classes.\<close>

definition money_with_vat_add :: "money_with_vat \<Rightarrow> money_with_vat \<Rightarrow> money_with_vat" where
  "money_with_vat_add self other =
     MoneyWithVAT (money_add (net self) (net other)) (money_add (tax self) (tax other))"

definition money_with_vat_neg :: "money_with_vat \<Rightarrow> money_with_vat" where
  "money_with_vat_neg self =
     MoneyWithVAT (money_mul (net self) (decimal_of_int (- 1))) (money_mul (tax self) (decimal_of_int (- 1)))"

definition money_with_vat_mul :: "money_with_vat \<Rightarrow> decimal \<Rightarrow> money_with_vat" where
  "money_with_vat_mul self other = MoneyWithVAT (money_mul (net self) other) (money_mul (tax self) other)"

definition ratio_add :: "money_with_vat_ratio \<Rightarrow> money_with_vat_ratio \<Rightarrow> money_with_vat_ratio" where
  "ratio_add self other =
     MoneyWithVATRatio (decimal_add (net_ratio self) (net_ratio other))
       (decimal_add (gross_ratio self) (gross_ratio other))"

definition ratio_neg :: "money_with_vat_ratio \<Rightarrow> money_with_vat_ratio" where
  "ratio_neg self = MoneyWithVATRatio (decimal_neg (net_ratio self)) (decimal_neg (gross_ratio self))"

definition ratio_mul :: "money_with_vat_ratio \<Rightarrow> decimal \<Rightarrow> money_with_vat_ratio" where
  "ratio_mul self other =
     MoneyWithVATRatio (decimal_mul (net_ratio self) other) (decimal_mul (gross_ratio self) other)"

text \<open>The unary minus \<open>-v\<close>; \<open>None\<close>, a \<open>str\<close> and \<open>NotImplemented\<close> have none.\<close>

definition neg :: "pyval \<Rightarrow> error + pyval" where
  "neg v =
     (case v of
        PMoney m \<Rightarrow> Inr (PMoney (money_neg m))
      | PMoneyWithVAT m \<Rightarrow> Inr (PMoneyWithVAT (money_with_vat_neg m))
      | PMoneyWithVATRatio r \<Rightarrow> Inr (PMoneyWithVATRatio (ratio_neg r))
      | PDecimal d \<Rightarrow> Inr (PDecimal (decimal_neg d))
      | _ \<Rightarrow> (case as_int v of Some n \<Rightarrow> Inr (PInt (- n)) | None \<Rightarrow> Inl TypeError))"

text \<open>
  Special methods of the built-in types, as far as the universe of values goes. A method
  returns \<open>NotImplemented\<close> to decline its operand; \<open>str\<close> concatenation and repetition
  raise \<open>TypeError\<close> instead.
\<close>

datatype opname = Add | Sub | Mul

definition int_op :: "opname \<Rightarrow> int \<Rightarrow> int \<Rightarrow> int" where
  "int_op op a b = (case op of Add \<Rightarrow> a + b | Sub \<Rightarrow> a - b | Mul \<Rightarrow> a * b)"

definition int_special :: "opname \<Rightarrow> int \<Rightarrow> pyval \<Rightarrow> error + pyval" where
  "int_special op self other =
     (case as_int other of Some n \<Rightarrow> Inr (PInt (int_op op self n)) | None \<Rightarrow> Inr PNotImplemented)"

definition int_reflected :: "opname \<Rightarrow> int \<Rightarrow> pyval \<Rightarrow> error + pyval" where
  "int_reflected op self other =
     (case as_int other of Some n \<Rightarrow> Inr (PInt (int_op op n self)) | None \<Rightarrow> Inr PNotImplemented)"

definition copy_negate :: "decimal \<Rightarrow> decimal" where
  "copy_negate d = Decimal (\<not> d_sign d) (d_int d) (d_exp d)"

definition decimal_op :: "opname \<Rightarrow> decimal \<Rightarrow> decimal \<Rightarrow> decimal" where
  "decimal_op op a b =
     (case op of Add \<Rightarrow> decimal_add a b | Sub \<Rightarrow> decimal_add a (copy_negate b) | Mul \<Rightarrow> decimal_mul a b)"

definition Decimal_special :: "opname \<Rightarrow> decimal \<Rightarrow> pyval \<Rightarrow> error + pyval" where
  "Decimal_special op self other =
     (case convert_other other of
        Some d \<Rightarrow> Inr (PDecimal (decimal_op op self d))
      | None \<Rightarrow> Inr PNotImplemented)"

definition Decimal_reflected :: "opname \<Rightarrow> decimal \<Rightarrow> pyval \<Rightarrow> error + pyval" where
  "Decimal_reflected op self other =
     (case convert_other other of
        Some d \<Rightarrow> Inr (PDecimal (case op of Sub \<Rightarrow> decimal_op Sub d self | _ \<Rightarrow> decimal_op op self d))
      | None \<Rightarrow> Inr PNotImplemented)"

definition str_add :: "string \<Rightarrow> pyval \<Rightarrow> error + pyval" where
  "str_add self other = (case other of PStr t \<Rightarrow> Inr (PStr (self @ t)) | _ \<Rightarrow> Inl TypeError)"

definition str_mul :: "string \<Rightarrow> pyval \<Rightarrow> error + pyval" where
  "str_mul self other =
     (case as_int other of
        Some n \<Rightarrow> Inr (PStr (concat (replicate (nat n) self)))
      | None \<Rightarrow> Inl TypeError)"

text \<open>\<open>Money.__add__\<close>, \<open>__mul__\<close> (\<open>__rmul__ = __mul__\<close>) and \<open>__sub__\<close>.\<close>

definition Money__add :: "money \<Rightarrow> pyval \<Rightarrow> error + pyval" where
  "Money__add self other =
     (case other of PMoney m \<Rightarrow> Inr (PMoney (money_add self m)) | _ \<Rightarrow> Inr PNotImplemented)"

text \<open>
  In \<open>Money.__mul__\<close> a \<open>Money\<close> operand is declined. Otherwise the result is
  \<open>Money(self.amount * other)\<close>: the product with a \<open>Decimal\<close> or an int; with any other
  operand the multiplication or the conversion of its result to \<open>Decimal\<close> raises
  \<open>TypeError\<close>.
\<close>

definition Money__mul :: "money \<Rightarrow> pyval \<Rightarrow> error + pyval" where
  "Money__mul self other =
     (case other of
        PMoney m \<Rightarrow> Inr PNotImplemented
      | _ \<Rightarrow> (case convert_other other of
                Some d \<Rightarrow> Inr (PMoney (money_mul self d))
              | None \<Rightarrow> Inl TypeError))"

definition Money__sub :: "money \<Rightarrow> pyval \<Rightarrow> error + pyval" where
  "Money__sub self other = (case neg other of Inl e \<Rightarrow> Inl e | Inr v \<Rightarrow> Money__add self v)"

text \<open>
  \<open>MoneyWithVATRatio.__mul__\<close>, \<open>__add__\<close> and \<open>__sub__\<close>; the class defines no reflected
  methods.
\<close>

definition MoneyWithVATRatio__mul :: "money_with_vat_ratio \<Rightarrow> pyval \<Rightarrow> error + pyval" where
  "MoneyWithVATRatio__mul self other =
     (case convert_other other of
        Some d \<Rightarrow> Inr (PMoneyWithVATRatio (ratio_mul self d))
      | None \<Rightarrow>
          (case other of
             PMoneyWithVAT m \<Rightarrow> Inr (PMoneyWithVAT (MoneyWithVATRatio_mul_vat self m))
           | _ \<Rightarrow> Inr PNotImplemented))"

definition MoneyWithVATRatio__add :: "money_with_vat_ratio \<Rightarrow> pyval \<Rightarrow> error + pyval" where
  "MoneyWithVATRatio__add self other =
     (case other of
        PMoneyWithVATRatio r \<Rightarrow> Inr (PMoneyWithVATRatio (ratio_add self r))
      | _ \<Rightarrow> Inl TypeError)"

definition MoneyWithVATRatio__sub :: "money_with_vat_ratio \<Rightarrow> pyval \<Rightarrow> error + pyval" where
  "MoneyWithVATRatio__sub self other =
     (case neg other of Inl e \<Rightarrow> Inl e | Inr v \<Rightarrow> MoneyWithVATRatio__add self v)"

text \<open>
  \<open>MoneyWithVAT.__add__\<close> reads \<open>other.net\<close> and \<open>other.tax\<close>, attributes that only a
  \<open>MoneyWithVAT\<close> has. \<open>__sub__\<close> is \<open>self.__add__(-other)\<close>, and \<open>__rsub__ = __sub__\<close>.
  \<open>__mul__\<close> hands a \<open>MoneyWithVATRatio\<close> over to \<open>other * self\<close>, which is
  \<open>MoneyWithVATRatio.__mul__\<close>; otherwise it multiplies net and tax by \<open>other\<close>
  (\<open>Money * other\<close>, a \<open>TypeError\<close> unless \<open>other\<close> is a \<open>Decimal\<close> or an int).
\<close>

definition MoneyWithVAT__add :: "money_with_vat \<Rightarrow> pyval \<Rightarrow> error + pyval" where
  "MoneyWithVAT__add self other =
     (case other of
        PMoneyWithVAT m \<Rightarrow> Inr (PMoneyWithVAT (money_with_vat_add self m))
      | _ \<Rightarrow> Inl AttributeError)"

definition MoneyWithVAT__sub :: "money_with_vat \<Rightarrow> pyval \<Rightarrow> error + pyval" where
  "MoneyWithVAT__sub self other =
     (case neg other of Inl e \<Rightarrow> Inl e | Inr v \<Rightarrow> MoneyWithVAT__add self v)"

definition MoneyWithVAT__mul :: "money_with_vat \<Rightarrow> pyval \<Rightarrow> error + pyval" where
  "MoneyWithVAT__mul self other =
     (case other of
        PMoneyWithVATRatio r \<Rightarrow> MoneyWithVATRatio__mul r (PMoneyWithVAT self)
      | _ \<Rightarrow> (case convert_other other of
                Some d \<Rightarrow> Inr (PMoneyWithVAT (money_with_vat_mul self d))
              | None \<Rightarrow> Inl TypeError))"

text \<open>
  The attribute lookup \<open>v.__add__\<close>, \<open>v.__sub__\<close>, \<open>v.__mul__\<close>: the method bound to \<open>v\<close>,
  if the type of \<open>v\<close> has one.
\<close>

definition special :: "opname \<Rightarrow> pyval \<Rightarrow> (pyval \<Rightarrow> error + pyval) option" where
  "special op v =
     (case v of
        PNone \<Rightarrow> None
      | PNotImplemented \<Rightarrow> None
      | PBool b \<Rightarrow> Some (int_special op (if b then 1 else 0))
      | PInt n \<Rightarrow> Some (int_special op n)
      | PStr s \<Rightarrow> (case op of Add \<Rightarrow> Some (str_add s) | Sub \<Rightarrow> None | Mul \<Rightarrow> Some (str_mul s))
      | PDecimal d \<Rightarrow> Some (Decimal_special op d)
      | PMoney m \<Rightarrow>
          Some (case op of Add \<Rightarrow> Money__add m | Sub \<Rightarrow> Money__sub m | Mul \<Rightarrow> Money__mul m)
      | PMoneyWithVAT m \<Rightarrow>
          Some (case op of Add \<Rightarrow> MoneyWithVAT__add m | Sub \<Rightarrow> MoneyWithVAT__sub m
                | Mul \<Rightarrow> MoneyWithVAT__mul m)
      | PMoneyWithVATRatio r \<Rightarrow>
          Some (case op of Add \<Rightarrow> MoneyWithVATRatio__add r | Sub \<Rightarrow> MoneyWithVATRatio__sub r
                | Mul \<Rightarrow> MoneyWithVATRatio__mul r))"

text \<open>
  \<open>Money.__radd__\<close> and \<open>MoneyWithVAT.__radd__\<close>: an int operand gives \<open>self\<close> when it is
  \<open>0\<close> and is declined otherwise; any other operand is asked for \<open>other.__add__(self)\<close>.
  \<open>Money.__rsub__\<close> is \<open>(-self).__radd__(other)\<close>.
\<close>

definition Money__radd :: "money \<Rightarrow> pyval \<Rightarrow> error + pyval" where
  "Money__radd self other =
     (case as_int other of
        Some n \<Rightarrow> if n = 0 then Inr (PMoney self) else Inr PNotImplemented
      | None \<Rightarrow>
          (case special Add other of
             None \<Rightarrow> Inl AttributeError
           | Some other_add \<Rightarrow> other_add (PMoney self)))"

definition Money__rsub :: "money \<Rightarrow> pyval \<Rightarrow> error + pyval" where
  "Money__rsub self other = Money__radd (money_neg self) other"

definition MoneyWithVAT__radd :: "money_with_vat \<Rightarrow> pyval \<Rightarrow> error + pyval" where
  "MoneyWithVAT__radd self other =
     (case as_int other of
        Some n \<Rightarrow> if n = 0 then Inr (PMoneyWithVAT self) else Inr PNotImplemented
      | None \<Rightarrow>
          (case special Add other of
             None \<Rightarrow> Inl AttributeError
           | Some other_add \<Rightarrow> other_add (PMoneyWithVAT self)))"

text \<open>The reflected methods \<open>v.__radd__\<close>, \<open>v.__rsub__\<close>, \<open>v.__rmul__\<close>.\<close>

definition reflected :: "opname \<Rightarrow> pyval \<Rightarrow> (pyval \<Rightarrow> error + pyval) option" where
  "reflected op v =
     (case v of
        PNone \<Rightarrow> None
      | PNotImplemented \<Rightarrow> None
      | PBool b \<Rightarrow> Some (int_reflected op (if b then 1 else 0))
      | PInt n \<Rightarrow> Some (int_reflected op n)
      | PStr s \<Rightarrow> (case op of Mul \<Rightarrow> Some (str_mul s) | _ \<Rightarrow> None)
      | PDecimal d \<Rightarrow> Some (Decimal_reflected op d)
      | PMoney m \<Rightarrow>
          Some (case op of Add \<Rightarrow> Money__radd m | Sub \<Rightarrow> Money__rsub m | Mul \<Rightarrow> Money__mul m)
      | PMoneyWithVAT m \<Rightarrow>
          Some (case op of Add \<Rightarrow> MoneyWithVAT__radd m | Sub \<Rightarrow> MoneyWithVAT__sub m
                | Mul \<Rightarrow> MoneyWithVAT__mul m)
      | PMoneyWithVATRatio r \<Rightarrow> None)"

text \<open>
  The evaluation of \<open>a + b\<close>, \<open>a - b\<close>, \<open>a * b\<close>: the method of the left operand first; if
  it is missing or declines and the operands differ in type, the reflected method of the
  right operand; if that is missing or declines too, \<open>TypeError\<close>.
\<close>

definition call_or_decline :: "(pyval \<Rightarrow> error + pyval) option \<Rightarrow> pyval \<Rightarrow> error + pyval" where
  "call_or_decline method arg = (case method of None \<Rightarrow> Inr PNotImplemented | Some f \<Rightarrow> f arg)"

definition binary_op :: "opname \<Rightarrow> pyval \<Rightarrow> pyval \<Rightarrow> error + pyval" where
  "binary_op op a b =
     (case call_or_decline (special op a) b of
        Inl e \<Rightarrow> Inl e
      | Inr r \<Rightarrow>
          if r \<noteq> PNotImplemented then Inr r
          else if type_of a = type_of b then Inl TypeError
          else
            (case call_or_decline (reflected op b) a of
               Inl e \<Rightarrow> Inl e
             | Inr r' \<Rightarrow> if r' \<noteq> PNotImplemented then Inr r' else Inl TypeError))"

subsection \<open>Auxiliary notions for the statements\<close>

text \<open>
  A number is representable at precision \<open>p\<close> when some coefficient of at most \<open>p\<close>
  digits and some exponent denote it: rounding to \<open>p\<close> digits then leaves it unchanged.
\<close>

definition representable :: "nat \<Rightarrow> rat \<Rightarrow> bool" where
  "representable p x \<longleftrightarrow> (\<exists>c e. c < 10 ^ p \<and> \<bar>x\<bar> = of_nat c * 10 powi e)"

text \<open>
  \<open>ratio(m, n)\<close> for \<open>m = (100, 19)\<close> and \<open>n = (200, 14)\<close>, that is
  \<open>(0.5, 0.5560747663551401869158878505)\<close>, and \<open>ratio((1, 0), (3, 0))\<close>, a third at 28
  digits.
\<close>

definition ratio_fixture :: money_with_vat_ratio where
  "ratio_fixture =
     MoneyWithVATRatio (Decimal False 5 (- 1)) (Decimal False 5560747663551401869158878505 (- 28))"

definition third :: money_with_vat_ratio where
  "third = MoneyWithVATRatio (Decimal False 3333333333333333333333333333 (- 28))
                              (Decimal False 3333333333333333333333333333 (- 28))"

text \<open>
  \<open>q\<close> is \<open>d\<close> rounded half-even to \<open>n\<close> decimals: \<open>q\<close> has exponent \<open>-n\<close> and the sign of
  \<open>d\<close>, its coefficient is an integer nearest to \<open>|d| * 10^n\<close>, and the even one of the two in
  a tie.
\<close>

definition rounds_half_even :: "decimal \<Rightarrow> int \<Rightarrow> decimal \<Rightarrow> bool" where
  "rounds_half_even d n q \<longleftrightarrow>
     d_exp q = - n \<and> d_sign q = d_sign d
     \<and> \<bar>\<bar>decimal_val d\<bar> * 10 powi n - of_nat (d_int q)\<bar> \<le> 1 / 2
     \<and> (\<bar>\<bar>decimal_val d\<bar> * 10 powi n - of_nat (d_int q)\<bar> = 1 / 2 \<longrightarrow> even (d_int q))"

text \<open>
  The amounts \<open>net = 4.444, tax = 2.222\<close> of the test of \<open>rounded_to_cents\<close>, and a pair of
  large amounts of opposite sign, \<open>net = -90000000000000000000000000.00\<close> and
  \<open>tax = 180000000000000000000000000.01\<close>.
\<close>

definition cents_fixture :: money_with_vat where
  "cents_fixture = MoneyWithVAT (Money (Decimal False 4444 (- 3))) (Money (Decimal False 2222 (- 3)))"

definition cents_large :: money_with_vat where
  "cents_large = MoneyWithVAT (Money (Decimal True 9000000000000000000000000000 (- 2)))
                              (Money (Decimal False 18000000000000000000000000001 (- 2)))"

subsection \<open>\<open>fast_sum\<close> and \<open>fast_sum_with_none\<close>\<close>

text \<open>
  The operands are an \<open>Iterable\<close>: a collection that can be iterated again (a list, a
  tuple), or a one-shot iterator (a generator, \<open>iter(...)\<close>), which the first pass exhausts.
  \<open>iterate\<close> gives the items of a pass and the iterable as that pass leaves it.
\<close>

datatype 'a iterable = Sequence "'a list" | Iterator "'a list"

definition iterate :: "'a iterable \<Rightarrow> 'a list \<times> 'a iterable" where
  "iterate it = (case it of Sequence xs \<Rightarrow> (xs, Sequence xs) | Iterator xs \<Rightarrow> (xs, Iterator []))"

text \<open>
  The loop of \<open>fast_sum\<close>: \<open>if not operand: continue\<close> skips \<open>None\<close> and every
  \<open>MoneyWithVAT\<close> that is falsy (net and tax both zero); the other operands are added to
  the two \<open>Decimal\<close> accumulators.
\<close>

fun fast_sum_loop :: "decimal \<Rightarrow> decimal \<Rightarrow> money_with_vat option list \<Rightarrow> decimal \<times> decimal" where
  "fast_sum_loop net_acc tax_acc [] = (net_acc, tax_acc)"
| "fast_sum_loop net_acc tax_acc (operand # rest) =
     (case operand of
        None \<Rightarrow> fast_sum_loop net_acc tax_acc rest
      | Some m \<Rightarrow>
          if \<not> money_with_vat_bool m then fast_sum_loop net_acc tax_acc rest
          else fast_sum_loop (decimal_add net_acc (amount (net m)))
                 (decimal_add tax_acc (amount (tax m))) rest)"

text \<open>
  \<open>MoneyWithVAT(net, tax)\<close> for two \<open>Decimal\<close> arguments: each becomes \<open>Money(x or 0)\<close>, so
  a zero \<open>Decimal\<close> is replaced by the int \<open>0\<close>.
\<close>

definition MoneyWithVAT_of_decimals :: "decimal \<Rightarrow> decimal \<Rightarrow> money_with_vat" where
  "MoneyWithVAT_of_decimals n t =
     MoneyWithVAT (Money (if decimal_bool n then n else decimal_of_int 0))
                  (Money (if decimal_bool t then t else decimal_of_int 0))"

definition fast_sum ::
  "money_with_vat option iterable \<Rightarrow> money_with_vat \<times> money_with_vat option iterable" where
  "fast_sum ops =
     (case iterate ops of
        (items, ops') \<Rightarrow>
          (case fast_sum_loop (decimal_of_int 0) (decimal_of_int 0) items of
             (n, t) \<Rightarrow> (MoneyWithVAT_of_decimals n t, ops')))"

text \<open>
  \<open>fast_sum_with_none\<close> passes \<open>operands\<close> to \<open>fast_sum\<close> and then iterates the same object
  again in \<open>all(operand is None for operand in operands)\<close>.
\<close>

definition fast_sum_with_none :: "money_with_vat option iterable \<Rightarrow> money_with_vat option" where
  "fast_sum_with_none ops =
     (case fast_sum ops of
        (result, ops') \<Rightarrow>
          if \<not> money_with_vat_bool result
             \<and> list_all (\<lambda>operand. operand = None) (fst (iterate ops'))
          then None else Some result)"

text \<open>
  Python's \<open>sum\<close> of a list of \<open>Decimal\<close>s, starting from \<open>0\<close>, and the operands of a list
  that are not \<open>None\<close>.
\<close>

definition decimal_sum :: "decimal list \<Rightarrow> decimal" where
  "decimal_sum ds = foldl decimal_add (decimal_of_int 0) ds"

definition present :: "'a option list \<Rightarrow> 'a list" where
  "present items = map the (filter (\<lambda>operand. operand \<noteq> None) items)"

text \<open>
  A number lies on the grid of \<open>k\<close> fractional digits when it is a whole multiple of
  \<open>10\<^sup>-\<^sup>k\<close>; every \<open>Decimal\<close> whose exponent is at least \<open>-k\<close> does.
\<close>

definition on_grid :: "nat \<Rightarrow> rat \<Rightarrow> bool" where
  "on_grid k x \<longleftrightarrow> (\<exists>i::int. x = of_int i * 10 powi (- int k))"

section \<open>Properties\<close>

lemma ndigits_pos: "0 < ndigits n"
  by (subst ndigits.simps) simp

lemma ndigits_le_iff: "0 < p \<Longrightarrow> ndigits n \<le> p \<longleftrightarrow> n < 10 ^ p"
proof (induction n arbitrary: p rule: ndigits.induct)
  case (1 n)
  show ?case
  proof (cases "n < 10")
    case True
    have "(10::nat) ^ 1 \<le> 10 ^ p"
      using 1(2) by (intro power_increasing) auto
    with True 1(2) show ?thesis
      by (subst ndigits.simps) auto
  next
    case False
    show ?thesis
    proof (cases "p = 1")
      case True
      with False show ?thesis
        using ndigits_pos [of "n div 10"] by (subst ndigits.simps) auto
    next
      case p1: False
      with 1(2) obtain p' where p': "p = Suc p'" "0 < p'"
        by (cases p) auto
      have "ndigits (n div 10) \<le> p' \<longleftrightarrow> n div 10 < 10 ^ p'"
        using 1(1) [OF False p'(2)] .
      also have "\<dots> \<longleftrightarrow> n < 10 ^ p"
        by (simp add: p' div_less_iff_less_mult mult.commute)
      finally show ?thesis
        using False by (subst ndigits.simps) (simp add: p')
    qed
  qed
qed

subsection \<open>Evaluation\<close>

text \<open>
  The recursive functions unfold on literals only, so that a concrete call evaluates and a
  symbolic one is left alone.
\<close>

lemma ndigits_eqI:
  assumes "0 < k" and "n < 10 ^ k" and "k = 1 \<or> 10 ^ (k - 1) \<le> n"
  shows "ndigits n = k"
proof -
  have le: "ndigits n \<le> k"
    using ndigits_le_iff [OF assms(1)] assms(2) by simp
  show ?thesis
  proof (cases "k = 1")
    case True
    with le ndigits_pos [of n] show ?thesis by simp
  next
    case False
    with assms have "0 < k - 1" and "\<not> n < 10 ^ (k - 1)" by auto
    then have "\<not> ndigits n \<le> k - 1"
      using ndigits_le_iff [of "k - 1" n] by simp
    with le show ?thesis by simp
  qed
qed

lemma ndigits_from_correct:
  "0 < k \<Longrightarrow> pw = 10 ^ k \<Longrightarrow> k = 1 \<or> 10 ^ (k - 1) \<le> n \<Longrightarrow> ndigits_from n k pw = ndigits n"
proof (induction n k pw rule: ndigits_from.induct)
  case (1 n k pw)
  show ?case
  proof (cases "n < pw")
    case True
    then have "ndigits n = k"
      using 1(2,3,4) by (intro ndigits_eqI) auto
    with True show ?thesis
      by (subst ndigits_from.simps) simp
  next
    case False
    have "ndigits_from n (k + 1) (10 * pw) = ndigits n"
      using False 1(2,3) by (intro 1(1)) auto
    with False 1(3) show ?thesis
      by (subst ndigits_from.simps) simp
  qed
qed

lemma ndigits_from_numeral:
  "ndigits_from (numeral n) k (numeral pw) =
     (if (numeral n :: nat) < numeral pw then k
      else ndigits_from (numeral n) (k + 1) (10 * numeral pw))"
  by (subst ndigits_from.simps) simp

lemma ndigits_numeral:
  "ndigits (numeral k) = ndigits_from (numeral k) 1 10"
  "ndigits 0 = 1" "ndigits 1 = 1" "ndigits (Suc 0) = 1"
proof -
  show "ndigits (numeral k) = ndigits_from (numeral k) 1 10"
    by (rule ndigits_from_correct [symmetric]) simp_all
qed (subst ndigits.simps, simp)+

lemma strip_zeros_numeral:
  "strip_zeros (numeral k) e ideal =
     (if e < ideal \<and> (numeral k :: nat) mod 10 = 0
      then strip_zeros (numeral k div 10) (e + 1) ideal
      else (numeral k, e))"
  "strip_zeros 0 e ideal = (if e < ideal then strip_zeros 0 (e + 1) ideal else (0, e))"
  "strip_zeros 1 e ideal = (1, e)"
  "strip_zeros (Suc 0) e ideal = (Suc 0, e)"
  by (subst strip_zeros.simps, simp)+

lemma strip_zeros_mult:
  "e + int j \<le> ideal \<Longrightarrow> strip_zeros (c * 10 ^ j) e ideal = strip_zeros c (e + int j) ideal"
proof (induction j arbitrary: e)
  case 0
  then show ?case by simp
next
  case (Suc j)
  have "strip_zeros (c * 10 ^ Suc j) e ideal = strip_zeros (c * 10 ^ j) (e + 1) ideal"
    using Suc.prems by (subst strip_zeros.simps) simp
  also have "\<dots> = strip_zeros c (e + 1 + int j) ideal"
    using Suc.prems by (intro Suc.IH) simp
  finally show ?case by (simp add: add.assoc)
qed

lemma strip_zeros_stop: "c mod 10 \<noteq> 0 \<or> ideal \<le> e \<Longrightarrow> strip_zeros c e ideal = (c, e)"
  by (subst strip_zeros.simps) auto

lemmas dec_ev = decimal_add_def decimal_fix_def decimal_mul_def decimal_truediv_def decimal_round_def
  decimal_quantize_def decimal_rescale_def round_half_even_def d_sint_def context_prec_def
  ndigits_numeral ndigits_from_numeral Let_def decimal_neg_def decimal_abs_def decimal_of_int_def
  decimal_eq_def decimal_lt_def decimal_gt_def decimal_bool_def

lemmas money_ev = money_add_def money_neg_def money_sub_def money_abs_def money_mul_def
  money_truediv_money_def money_truediv_def money_bool_def money_eq_def money_lt_def money_gt_def
  money_round_def gross_def money_with_vat_bool_def money_with_vat_eq_def

subsection \<open>Comparison is comparison of values\<close>

lemma pow10_pos: "0 < (10::rat) powi e"
  by (simp add: zero_less_power_int)

lemma decimal_val_scale:
  assumes "m \<le> e"
  shows "of_int (s * 10 ^ nat (e - m)) * (10::rat) powi m = of_int s * 10 powi e"
proof -
  have "(10::rat) powi e = 10 powi m * 10 powi (e - m)"
    using power_int_add [of "10::rat" m "e - m"] by simp
  also have "(10::rat) powi (e - m) = 10 ^ nat (e - m)"
    using assms by (simp add: power_int_nonneg_exp)
  finally show ?thesis by simp
qed

lemma decimal_val_aligned:
  "of_int (d_sint a * 10 ^ nat (d_exp a - min (d_exp a) (d_exp b))) * (10::rat) powi (min (d_exp a) (d_exp b))
     = decimal_val a"
  "of_int (d_sint b * 10 ^ nat (d_exp b - min (d_exp a) (d_exp b))) * (10::rat) powi (min (d_exp a) (d_exp b))
     = decimal_val b"
  unfolding decimal_val_def by (rule decimal_val_scale, simp)+

lemma decimal_lt_iff: "decimal_lt a b \<longleftrightarrow> decimal_val a < decimal_val b"
proof -
  let ?m = "min (d_exp a) (d_exp b)"
  let ?A = "d_sint a * 10 ^ nat (d_exp a - ?m)"
  let ?B = "d_sint b * 10 ^ nat (d_exp b - ?m)"
  have "decimal_val a < decimal_val b \<longleftrightarrow> (of_int ?A :: rat) * 10 powi ?m < of_int ?B * 10 powi ?m"
    by (simp only: decimal_val_aligned)
  also have "\<dots> \<longleftrightarrow> ?A < ?B"
    using pow10_pos [of ?m] by (simp only: mult_less_cancel_right_pos of_int_less_iff)
  finally show ?thesis
    by (simp add: decimal_lt_def Let_def)
qed

lemma decimal_eq_iff: "decimal_eq a b \<longleftrightarrow> decimal_val a = decimal_val b"
proof -
  let ?m = "min (d_exp a) (d_exp b)"
  let ?A = "d_sint a * 10 ^ nat (d_exp a - ?m)"
  let ?B = "d_sint b * 10 ^ nat (d_exp b - ?m)"
  have "decimal_val a = decimal_val b \<longleftrightarrow> (of_int ?A :: rat) * 10 powi ?m = of_int ?B * 10 powi ?m"
    by (simp only: decimal_val_aligned)
  also have "\<dots> \<longleftrightarrow> (of_int ?A :: rat) = of_int ?B"
    using pow10_pos [of ?m] by (simp only: mult_cancel_right) simp
  also have "\<dots> \<longleftrightarrow> ?A = ?B"
    by (simp only: of_int_eq_iff)
  finally show ?thesis
    by (simp add: decimal_eq_def Let_def)
qed

lemma decimal_gt_iff: "decimal_gt a b \<longleftrightarrow> decimal_val b < decimal_val a"
  by (simp add: decimal_gt_def decimal_lt_iff)

lemma decimal_eq_refl: "decimal_eq a a"
  by (simp add: decimal_eq_iff)


subsection \<open>\<open>gross\<close>\<close>

text \<open>
  C1. For every \<open>MoneyWithVAT\<close> \<open>m\<close>, \<open>m.gross == m.net + m.tax\<close>. The object stores
  \<open>net\<close> and \<open>tax\<close> only; \<open>gross\<close> is computed from them at each access, so the identity
  holds for every value, whichever constructor or operation produced it.
\<close>

theorem gross_is_net_plus_tax:
  "gross m = money_add (net m) (tax m)
   \<and> money_eq (gross m) (money_add (net m) (tax m))
   \<and> gross (MoneyWithVAT n t) = money_add n t"
  by (simp add: gross_def money_eq_def decimal_eq_refl)

subsection \<open>\<open>MoneyWithVAT.max\<close>\<close>

lemma max_loop_mem: "max_loop gt m xs \<in> set (m # xs)"
  by (induction xs arbitrary: m) auto

lemma max_loop_ge_all:
  assumes "\<And>x y. gt x y \<longleftrightarrow> v y < (v x :: rat)"
  shows "\<forall>x\<in>set (m # xs). v x \<le> v (max_loop gt m xs)"
proof (induction xs arbitrary: m)
  case Nil
  then show ?case by simp
next
  case (Cons y ys)
  let ?m' = "if gt y m then y else m"
  have IH: "\<forall>x\<in>set (?m' # ys). v x \<le> v (max_loop gt ?m' ys)"
    by (rule Cons.IH)
  have le: "v m \<le> v ?m'" "v y \<le> v ?m'"
    using assms by auto
  have m': "v ?m' \<le> v (max_loop gt ?m' ys)"
    using IH by simp
  have "v m \<le> v (max_loop gt ?m' ys)" "v y \<le> v (max_loop gt ?m' ys)"
    using le m' by linarith+
  moreover have "\<forall>x\<in>set ys. v x \<le> v (max_loop gt ?m' ys)"
    using IH by simp
  ultimately show ?case by simp
qed

lemma max_loop_ge:
  assumes "\<And>x y. gt x y \<longleftrightarrow> v y < (v x :: rat)" and "x \<in> set (m # xs)"
  shows "v x \<le> v (max_loop gt m xs)"
  using max_loop_ge_all [of gt v m xs] assms by blast

lemma money_gt_iff: "money_gt a b \<longleftrightarrow> decimal_val (amount b) < decimal_val (amount a)"
  by (simp add: money_gt_def decimal_gt_iff)

lemma builtin_max_money:
  assumes "xs \<noteq> []"
  shows "\<exists>r. builtin_max money_gt xs = Inr r \<and> r \<in> set xs \<and> (\<forall>x\<in>set xs. \<not> money_gt x r)"
proof -
  from assms obtain y ys where xs: "xs = y # ys" by (cases xs) auto
  let ?r = "max_loop money_gt y ys"
  have "?r \<in> set xs" unfolding xs by (rule max_loop_mem)
  moreover have "\<not> money_gt x ?r" if "x \<in> set xs" for x
  proof -
    have "decimal_val (amount x) \<le> decimal_val (amount ?r)"
      using max_loop_ge [of money_gt "\<lambda>m. decimal_val (amount m)" x y ys] that
      by (simp add: money_gt_iff xs)
    then show ?thesis by (simp add: money_gt_iff)
  qed
  ultimately show ?thesis by (auto simp: builtin_max_def xs)
qed

lemma operands_map: "operands (map Operand ms) = Inr ms"
  by (induction ms) auto

lemma MoneyWithVAT_max_moneys:
  assumes "moneys \<noteq> []"
    and "args = [OperandSeq moneys] \<or> (args = map Operand moneys \<and> 2 \<le> length moneys)"
  shows "\<exists>max_net max_gross.
           MoneyWithVAT_max args = Inr (MoneyWithVAT max_net (money_sub max_gross max_net))
         \<and> max_net \<in> set (map net moneys) \<and> (\<forall>m\<in>set moneys. \<not> money_gt (net m) max_net)
         \<and> max_gross \<in> set (map gross moneys) \<and> (\<forall>m\<in>set moneys. \<not> money_gt (gross m) max_gross)"
proof -
  have sel: "(if length args = 1
            then (case hd args of OperandSeq ms \<Rightarrow> Inr ms | Operand m \<Rightarrow> Inl TypeError)
            else operands args) = Inr moneys"
    using assms(2) by (auto simp: operands_map)
  obtain n where n: "builtin_max money_gt (map net moneys) = Inr n" "n \<in> set (map net moneys)"
      "\<forall>x\<in>set (map net moneys). \<not> money_gt x n"
    using builtin_max_money [of "map net moneys"] assms(1) by auto
  obtain g where g: "builtin_max money_gt (map gross moneys) = Inr g" "g \<in> set (map gross moneys)"
      "\<forall>x\<in>set (map gross moneys). \<not> money_gt x g"
    using builtin_max_money [of "map gross moneys"] assms(1) by auto
  have "MoneyWithVAT_max args = Inr (MoneyWithVAT n (money_sub g n))"
    unfolding MoneyWithVAT_max_def sel by (simp add: n(1) g(1))
  with n g show ?thesis by auto
qed


text \<open>
  C10 (amended). \<open>MoneyWithVAT.max\<close> accepts a single non-empty sequence, or two or more
  variadic operands (as its signature requires), and returns a \<open>MoneyWithVAT\<close> whose net is
  the maximum net among the operands and whose tax is the maximum gross among the operands
  minus that maximum net. On \<open>[(100,19), (112,999), (1,2), (99999,0)]\<close> the maximum gross is
  \<open>99999\<close>, the gross of \<open>(99999, 0)\<close>, so the result is net \<open>99999\<close> and tax
  \<open>99999 - 99999 = 0\<close>.
\<close>

theorem MoneyWithVAT_max_composite:
  assumes "moneys \<noteq> []"
    and "args = [OperandSeq moneys] \<or> (args = map Operand moneys \<and> 2 \<le> length moneys)"
  shows "(\<exists>max_net max_gross.
            MoneyWithVAT_max args = Inr (MoneyWithVAT max_net (money_sub max_gross max_net))
          \<and> max_net \<in> set (map net moneys) \<and> (\<forall>m\<in>set moneys. \<not> money_gt (net m) max_net)
          \<and> max_gross \<in> set (map gross moneys)
          \<and> (\<forall>m\<in>set moneys. \<not> money_gt (gross m) max_gross))
       \<and> MoneyWithVAT_max [OperandSeq max_fixture]
           = Inr (MoneyWithVAT (Money (decimal_of_int 99999)) (Money (decimal_of_int 0)))"
proof
  show "\<exists>max_net max_gross.
            MoneyWithVAT_max args = Inr (MoneyWithVAT max_net (money_sub max_gross max_net))
          \<and> max_net \<in> set (map net moneys) \<and> (\<forall>m\<in>set moneys. \<not> money_gt (net m) max_net)
          \<and> max_gross \<in> set (map gross moneys)
          \<and> (\<forall>m\<in>set moneys. \<not> money_gt (gross m) max_gross)"
    using assms by (rule MoneyWithVAT_max_moneys)
  show "MoneyWithVAT_max [OperandSeq max_fixture]
           = Inr (MoneyWithVAT (Money (decimal_of_int 99999)) (Money (decimal_of_int 0)))"
    by (simp add: max_fixture_def MoneyWithVAT_max_def builtin_max_def dec_ev money_ev cong: let_weak_cong)
qed

theorem MoneyWithVAT_max_composite_witness:
  "max_fixture \<noteq> []
   \<and> (\<exists>max_net max_gross.
            MoneyWithVAT_max [OperandSeq max_fixture]
              = Inr (MoneyWithVAT max_net (money_sub max_gross max_net))
          \<and> max_net \<in> set (map net max_fixture)
          \<and> (\<forall>m\<in>set max_fixture. \<not> money_gt (net m) max_net)
          \<and> max_gross \<in> set (map gross max_fixture)
          \<and> (\<forall>m\<in>set max_fixture. \<not> money_gt (gross m) max_gross))"
proof -
  have ne: "max_fixture \<noteq> []"
    by (simp add: max_fixture_def)
  show ?thesis
    using ne MoneyWithVAT_max_composite [OF ne, of "[OperandSeq max_fixture]"] by blast
qed

text \<open>
  The claim as stated gives tax \<open>1112 - 99999 = -98887\<close> on that input; the code returns
  tax \<open>0\<close>.
\<close>

theorem MoneyWithVAT_max_fixture_counterexample:
  "MoneyWithVAT_max [OperandSeq max_fixture]
     = Inr (MoneyWithVAT (Money (Decimal False 99999 0)) (Money (Decimal False 0 0)))
   \<and> \<not> money_eq (Money (Decimal False 0 0)) (Money (decimal_of_int (- 98887)))"
  by (simp add: max_fixture_def MoneyWithVAT_max_def builtin_max_def dec_ev money_ev cong: let_weak_cong)

subsection \<open>Division\<close>

lemma d_sint_eq_0 [simp]: "d_sint a = 0 \<longleftrightarrow> d_int a = 0"
  by (simp add: d_sint_def)

lemma decimal_val_eq_0 [simp]: "decimal_val a = 0 \<longleftrightarrow> d_int a = 0"
  by (simp add: decimal_val_def)

lemma decimal_val_of_int [simp]: "decimal_val (decimal_of_int n) = of_int n"
  by (simp add: decimal_val_def decimal_of_int_def d_sint_def)

lemma decimal_eq_zero: "decimal_eq a (decimal_of_int 0) \<longleftrightarrow> d_int a = 0"
  by (simp add: decimal_eq_iff)

lemma decimal_truediv_cases:
  "decimal_truediv a b =
     (if d_int b = 0 then (if d_int a = 0 then Inl InvalidOperation else Inl DivisionByZero)
      else Inr (projr (decimal_truediv a b)))"
  by (simp add: decimal_truediv_def Let_def split: prod.split)

lemma decimal_truediv_Inr: "d_int b \<noteq> 0 \<Longrightarrow> \<exists>q. decimal_truediv a b = Inr q"
  using decimal_truediv_cases [of a b] by auto


lemma decimal_truediv_zero:
  "d_int b = 0 \<Longrightarrow> decimal_truediv a b = Inl (if d_int a = 0 then InvalidOperation else DivisionByZero)"
  by (simp add: decimal_truediv_def)

lemma strip_zeros_pow10: "strip_zeros (10 ^ n) (ideal - int n) ideal = (1, ideal)"
proof (induction n)
  case 0
  show ?case by (subst strip_zeros.simps) simp
next
  case (Suc n)
  have "strip_zeros (10 ^ Suc n) (ideal - int (Suc n)) ideal
      = strip_zeros (10 ^ n) (ideal - int (Suc n) + 1) ideal"
    by (subst strip_zeros.simps) simp
  also have "ideal - int (Suc n) + 1 = ideal - int n" by simp
  finally show ?case using Suc by simp
qed

lemma decimal_fix_small: "d_int d < 10 ^ p \<Longrightarrow> 0 < p \<Longrightarrow> decimal_fix p d = d"
  by (simp add: decimal_fix_def ndigits_le_iff)

lemma decimal_truediv_self:
  assumes "d_int a \<noteq> 0"
  shows "decimal_truediv a a = Inr (Decimal False 1 0)"
proof -
  let ?n = "context_prec + 1"
  have sz: "strip_zeros (10 ^ ?n) (- int ?n) 0 = (1, 0)"
    using strip_zeros_pow10 [of ?n 0] by simp
  have fx: "decimal_fix context_prec (Decimal False 1 0) = Decimal False 1 0"
    by (rule decimal_fix_small) (simp_all add: context_prec_def)
  have shift: "int (ndigits (d_int a)) - int (ndigits (d_int a)) + int context_prec + 1 = int ?n"
    by simp
  show ?thesis
    unfolding decimal_truediv_def Let_def shift
    using assms sz fx by (simp del: power_Suc add: nat_add_distrib)
qed

lemma money_bool_iff: "money_bool m \<longleftrightarrow> d_int (amount m) \<noteq> 0"
  by (simp add: money_bool_def decimal_bool_def)

lemma money_truediv_money_zero:
  "\<not> money_bool b \<Longrightarrow>
     money_truediv_money a b = Inl (if money_bool a then DivisionByZero else InvalidOperation)"
  by (simp add: money_truediv_money_def decimal_truediv_zero money_bool_iff)

lemma money_truediv_money_Inr: "money_bool b \<Longrightarrow> \<exists>q. money_truediv_money a b = Inr q"
  by (simp add: money_truediv_money_def decimal_truediv_Inr money_bool_iff)

lemma money_truediv_money_self:
  "money_bool a \<Longrightarrow> money_truediv_money a a = Inr (Decimal False 1 0)"
  by (simp add: money_truediv_money_def decimal_truediv_self money_bool_iff)






subsection \<open>\<open>ratio\<close>\<close>

text \<open>
  C3 (amended). For \<open>MoneyWithVAT\<close> operands, \<open>ratio(dividend, divisor)\<close> is
  \<open>MoneyWithVATRatio(dividend.net / divisor.net, dividend.gross / divisor.gross)\<close> when both
  components of the divisor are non-zero, and \<open>ratio(m, m)\<close> is \<open>(1, 1)\<close> for every
  \<open>m\<close> with non-zero net and gross. When a component of the divisor is zero (the net is
  divided first), it raises \<open>DivisionByZero\<close> if the matching component of the dividend is
  non-zero, and \<open>InvalidOperation\<close> if that component is zero too (\<open>0 / 0\<close> is
  undefined). It raises \<open>TypeError\<close> when either argument is not a \<open>MoneyWithVAT\<close>.
\<close>

theorem ratio_cases:
  "(money_bool (net divisor) \<and> money_bool (gross divisor) \<longrightarrow>
      (\<exists>n g. money_truediv_money (net dividend) (net divisor) = Inr n
           \<and> money_truediv_money (gross dividend) (gross divisor) = Inr g
           \<and> ratio (PMoneyWithVAT dividend) (PMoneyWithVAT divisor) = Inr (MoneyWithVATRatio n g)))
   \<and> (money_bool (net divisor) \<and> money_bool (gross divisor) \<longrightarrow>
        (\<exists>r. ratio (PMoneyWithVAT divisor) (PMoneyWithVAT divisor) = Inr r
           \<and> decimal_eq (net_ratio r) (decimal_of_int 1)
           \<and> decimal_eq (gross_ratio r) (decimal_of_int 1)))
   \<and> (\<not> money_bool (net divisor) \<longrightarrow>
        ratio (PMoneyWithVAT dividend) (PMoneyWithVAT divisor)
          = Inl (if money_bool (net dividend) then DivisionByZero else InvalidOperation))
   \<and> (money_bool (net divisor) \<and> \<not> money_bool (gross divisor) \<longrightarrow>
        ratio (PMoneyWithVAT dividend) (PMoneyWithVAT divisor)
          = Inl (if money_bool (gross dividend) then DivisionByZero else InvalidOperation))
   \<and> (\<not> isinstance_MoneyWithVAT x \<or> \<not> isinstance_MoneyWithVAT y \<longrightarrow> ratio x y = Inl TypeError)"
proof (intro conjI impI)
  assume nz: "money_bool (net divisor) \<and> money_bool (gross divisor)"
  obtain n where n: "money_truediv_money (net dividend) (net divisor) = Inr n"
    using money_truediv_money_Inr nz by blast
  obtain g where g: "money_truediv_money (gross dividend) (gross divisor) = Inr g"
    using money_truediv_money_Inr nz by blast
  show "\<exists>n g. money_truediv_money (net dividend) (net divisor) = Inr n
           \<and> money_truediv_money (gross dividend) (gross divisor) = Inr g
           \<and> ratio (PMoneyWithVAT dividend) (PMoneyWithVAT divisor) = Inr (MoneyWithVATRatio n g)"
    using n g by (simp add: ratio_def from_money_with_vat_def)
  have "ratio (PMoneyWithVAT divisor) (PMoneyWithVAT divisor)
          = Inr (MoneyWithVATRatio (Decimal False 1 0) (Decimal False 1 0))"
    using nz by (simp add: ratio_def from_money_with_vat_def money_truediv_money_self)
  then show "\<exists>r. ratio (PMoneyWithVAT divisor) (PMoneyWithVAT divisor) = Inr r
           \<and> decimal_eq (net_ratio r) (decimal_of_int 1)
           \<and> decimal_eq (gross_ratio r) (decimal_of_int 1)"
    by (simp add: decimal_eq_iff decimal_val_def d_sint_def decimal_of_int_def)
next
  assume "\<not> money_bool (net divisor)"
  then show "ratio (PMoneyWithVAT dividend) (PMoneyWithVAT divisor)
          = Inl (if money_bool (net dividend) then DivisionByZero else InvalidOperation)"
    by (simp add: ratio_def from_money_with_vat_def money_truediv_money_zero)
next
  assume a: "money_bool (net divisor) \<and> \<not> money_bool (gross divisor)"
  obtain n where n: "money_truediv_money (net dividend) (net divisor) = Inr n"
    using money_truediv_money_Inr a by blast
  show "ratio (PMoneyWithVAT dividend) (PMoneyWithVAT divisor)
          = Inl (if money_bool (gross dividend) then DivisionByZero else InvalidOperation)"
    using a n by (simp add: ratio_def from_money_with_vat_def money_truediv_money_zero)
next
  assume "\<not> isinstance_MoneyWithVAT x \<or> \<not> isinstance_MoneyWithVAT y"
  then show "ratio x y = Inl TypeError"
    by (auto simp: ratio_def isinstance_MoneyWithVAT_def split: pyval.splits)
qed

theorem ratio_cases_witness:
  "ratio (PMoneyWithVAT (vat 200 38)) (PMoneyWithVAT (vat 100 19))
     = Inr (MoneyWithVATRatio (Decimal False 2 0) (Decimal False 2 0))
   \<and> ratio (PMoneyWithVAT (vat 200 38)) (PMoneyWithVAT (vat 0 0)) = Inl DivisionByZero
   \<and> ratio PNone (PMoneyWithVAT (vat 100 19)) = Inl TypeError"
proof -
  have nz: "money_bool (net (vat 100 19)) \<and> money_bool (gross (vat 100 19))"
    by (simp add: vat_def dec_ev money_ev)
  have s: "strip_zeros 200000000000000000000000000000 (- 29) 0 = (2, 0)"
    using strip_zeros_mult [of "- 29" 29 0 2] by (simp add: strip_zeros_stop)
  have n: "money_truediv_money (net (vat 200 38)) (net (vat 100 19)) = Inr (Decimal False 2 0)"
    by (simp add: vat_def dec_ev money_ev s cong: let_weak_cong)
  have g: "money_truediv_money (gross (vat 200 38)) (gross (vat 100 19)) = Inr (Decimal False 2 0)"
    by (simp add: vat_def dec_ev money_ev s cong: let_weak_cong)
  have "ratio (PMoneyWithVAT (vat 200 38)) (PMoneyWithVAT (vat 100 19))
     = Inr (MoneyWithVATRatio (Decimal False 2 0) (Decimal False 2 0))"
    using ratio_cases [of "vat 100 19" "vat 200 38"] nz n g by auto
  moreover have z: "\<not> money_bool (net (vat 0 0))" "money_bool (net (vat 200 38))"
    by (simp_all add: vat_def dec_ev money_ev)
  have "ratio (PMoneyWithVAT (vat 200 38)) (PMoneyWithVAT (vat 0 0)) = Inl DivisionByZero"
    using ratio_cases [of "vat 0 0" "vat 200 38"] z by simp
  moreover have "ratio PNone (PMoneyWithVAT (vat 100 19)) = Inl TypeError"
    using ratio_cases [of _ _ PNone "PMoneyWithVAT (vat 100 19)"]
    by (simp add: isinstance_MoneyWithVAT_def)
  ultimately show ?thesis by simp
qed

text \<open>
  The claim as stated has \<open>DivisionByZero\<close> whenever a component of the divisor is
  zero. With dividend \<open>(0, 19)\<close> and the zero divisor, the code raises
  \<open>InvalidOperation\<close>.
\<close>

theorem ratio_zero_by_zero_counterexample:
  "ratio (PMoneyWithVAT (vat 0 19)) (PMoneyWithVAT (vat 0 0)) = Inl InvalidOperation
   \<and> InvalidOperation \<noteq> DivisionByZero"
  by (simp add: ratio_def from_money_with_vat_def vat_def money_truediv_money_def
      decimal_truediv_def decimal_of_int_def)

subsection \<open>\<open>safe_ratio\<close>\<close>



subsection \<open>\<open>tax_rate_for_display\<close>\<close>

lemma tax_rate_Inr: "\<exists>rate0. tax_rate self = Inr rate0"
proof (cases "decimal_eq (amount (net self)) (decimal_of_int 0)")
  case True
  then show ?thesis by (simp add: tax_rate_def)
next
  case False
  then have "money_bool (net self)"
    by (simp add: decimal_eq_zero money_bool_iff)
  then show ?thesis
    using False money_truediv_money_Inr [of "net self" "tax self"] by (simp add: tax_rate_def)
qed

lemma scan_rates_find: "scan_rates self rates = find (vat_diff_small self) rates"
  by (induction rates) auto

lemma known_rate_values:
  assumes "is_KNOWN_VAT_RATES rates"
  shows "list_ex (decimal_eq rate0) rates \<longleftrightarrow>
           decimal_val rate0 \<in> {19/100, 16/100, 7/100, 5/100, 20/100, 13/100, 10/100, 25/100, 0}"
proof -
  have "list_ex (decimal_eq rate0) rates \<longleftrightarrow>
          (\<exists>r\<in>set (GERMAN_VAT_RATES @ AUSTRIAN_VAT_RATES @ DENMARK_VAT_RATES). decimal_val rate0 = decimal_val r)"
    using assms unfolding list_ex_iff is_KNOWN_VAT_RATES_def decimal_eq_iff by blast
  also have "\<dots> \<longleftrightarrow> decimal_val rate0 \<in> {19/100, 16/100, 7/100, 5/100, 20/100, 13/100, 10/100, 25/100, 0}"
    by (auto simp: GERMAN_VAT_RATES_def AUSTRIAN_VAT_RATES_def DENMARK_VAT_RATES_def
        decimal_val_def d_sint_def)
  finally show ?thesis .
qed

lemma vat_diff_small_iff:
  "vat_diff_small self rate \<longleftrightarrow>
     decimal_val (amount (money_abs (money_sub (money_mul (net self) rate) (tax self)))) < 5 / 100"
  by (simp add: vat_diff_small_def Let_def decimal_lt_iff decimal_val_def d_sint_def)

lemma tax_rate_value:
  "(\<not> money_bool (net self) \<longrightarrow> tax_rate self = Inr (decimal_of_int 0))
   \<and> (money_bool (net self) \<longrightarrow> tax_rate self = money_truediv_money (tax self) (net self))"
  by (simp add: tax_rate_def decimal_eq_zero money_bool_iff)

text \<open>
  C9. \<open>tax_rate_for_display\<close> returns \<open>tax_rate\<close> (zero when the net is zero, else
  \<open>tax / net\<close>) unchanged when it equals an entry of the catalogue
  \<open>{0.19, 0.16, 0.07, 0.05, 0.20, 0.13, 0.10, 0.25, 0}\<close>; otherwise it scans the catalogue in
  its order and returns the first rate for which \<open>abs(rate * net - tax)\<close> is less than
  \<open>0.05\<close>; if there is none it returns \<open>tax_rate\<close>.
\<close>

theorem tax_rate_for_display_scan:
  assumes "is_KNOWN_VAT_RATES rates"
  shows "\<exists>rate0. tax_rate self = Inr rate0
          \<and> (\<not> money_bool (net self) \<longrightarrow> rate0 = decimal_of_int 0)
          \<and> (money_bool (net self) \<longrightarrow> money_truediv_money (tax self) (net self) = Inr rate0)
          \<and> tax_rate_for_display rates self =
              Inr (if decimal_val rate0 \<in> {19/100, 16/100, 7/100, 5/100, 20/100, 13/100, 10/100, 25/100, 0}
                   then rate0
                   else (case find (\<lambda>rate. decimal_val (amount (money_abs
                                        (money_sub (money_mul (net self) rate) (tax self)))) < 5 / 100)
                                rates of
                           Some rate \<Rightarrow> rate
                         | None \<Rightarrow> rate0))"
proof -
  obtain rate0 where r: "tax_rate self = Inr rate0"
    using tax_rate_Inr by blast
  have f: "find (vat_diff_small self) rates
         = find (\<lambda>rate. decimal_val (amount (money_abs
                                        (money_sub (money_mul (net self) rate) (tax self)))) < 5 / 100) rates"
  proof -
    have "vat_diff_small self = (\<lambda>rate. decimal_val (amount (money_abs
                                        (money_sub (money_mul (net self) rate) (tax self)))) < 5 / 100)"
      by (rule ext) (rule vat_diff_small_iff)
    then show ?thesis by (simp only:)
  qed
  have d: "tax_rate_for_display rates self =
              Inr (if decimal_val rate0 \<in> {19/100, 16/100, 7/100, 5/100, 20/100, 13/100, 10/100, 25/100, 0}
                   then rate0
                   else (case find (vat_diff_small self) rates of
                           Some rate \<Rightarrow> rate
                         | None \<Rightarrow> rate0))"
    using r known_rate_values [OF assms, of rate0]
    by (auto simp: tax_rate_for_display_def scan_rates_find split: option.splits)
  have v: "(\<not> money_bool (net self) \<longrightarrow> rate0 = decimal_of_int 0)
          \<and> (money_bool (net self) \<longrightarrow> money_truediv_money (tax self) (net self) = Inr rate0)"
    using tax_rate_value [of self] r by auto
  show ?thesis
    using r v d unfolding f by blast
qed

lemma catalogue_order_known: "is_KNOWN_VAT_RATES catalogue_order"
  by (auto simp: is_KNOWN_VAT_RATES_def catalogue_order_def
        GERMAN_VAT_RATES_def AUSTRIAN_VAT_RATES_def DENMARK_VAT_RATES_def)


text \<open>
  With the catalogue in the order \<open>0, 0.25, 0.19, ...\<close>, net \<open>100\<close> and tax \<open>19.00912\<close>: the
  rate \<open>0.1900912\<close> is not in the catalogue, \<open>0\<close> and \<open>0.25\<close> fail the test and \<open>0.19\<close>
  passes it.
\<close>

theorem tax_rate_for_display_scan_witness:
  "is_KNOWN_VAT_RATES catalogue_order
   \<and> tax_rate display_fixture = Inr (Decimal False 1900912 (- 7))
   \<and> tax_rate_for_display catalogue_order display_fixture = Inr (Decimal False 19 (- 2))"
proof -
  let ?P = "\<lambda>rate. decimal_val (amount (money_abs
               (money_sub (money_mul (net display_fixture) rate) (tax display_fixture)))) < 5 / 100"
  have s: "strip_zeros 190091200000000000000000000000 (- 30) (- 5) = (1900912, - 7)"
    using strip_zeros_mult [of "- 30" 23 "- 5" 1900912] by (simp add: strip_zeros_stop)
  have t: "tax_rate display_fixture = Inr (Decimal False 1900912 (- 7))"
    by (simp add: tax_rate_def display_fixture_def dec_ev money_ev s cong: let_weak_cong)
  have nin: "decimal_val (Decimal False 1900912 (- 7))
               \<notin> {19/100, 16/100, 7/100, 5/100, 20/100, 13/100, 10/100, 25/100, 0}"
    by (simp add: decimal_val_def d_sint_def)
  have p0: "\<not> ?P (Decimal False 0 0)"
    unfolding vat_diff_small_iff [symmetric]
    by (simp add: vat_diff_small_def display_fixture_def dec_ev money_ev cong: let_weak_cong)
  have p25: "\<not> ?P (Decimal False 25 (- 2))"
    unfolding vat_diff_small_iff [symmetric]
    by (simp add: vat_diff_small_def display_fixture_def dec_ev money_ev cong: let_weak_cong)
  have p19: "?P (Decimal False 19 (- 2))"
    unfolding vat_diff_small_iff [symmetric]
    by (simp add: vat_diff_small_def display_fixture_def dec_ev money_ev cong: let_weak_cong)
  have f: "find ?P catalogue_order = Some (Decimal False 19 (- 2))"
    using p0 p25 p19 by (simp add: catalogue_order_def)
  from tax_rate_for_display_scan [OF catalogue_order_known, of display_fixture]
  obtain rate0 where r: "tax_rate display_fixture = Inr rate0"
    and d: "tax_rate_for_display catalogue_order display_fixture =
              Inr (if decimal_val rate0 \<in> {19/100, 16/100, 7/100, 5/100, 20/100, 13/100, 10/100, 25/100, 0}
                   then rate0
                   else (case find ?P catalogue_order of Some rate \<Rightarrow> rate | None \<Rightarrow> rate0))"
    by blast
  from r t have "rate0 = Decimal False 1900912 (- 7)" by simp
  with d nin f have "tax_rate_for_display catalogue_order display_fixture = Inr (Decimal False 19 (- 2))"
    by simp
  with catalogue_order_known t show ?thesis by simp
qed


subsection \<open>Rounding leaves representable values unchanged\<close>

lemma ndigits_bound: "n < 10 ^ ndigits n"
  using ndigits_le_iff [of "ndigits n" n] ndigits_pos [of n] by simp

lemma decimal_val_Decimal:
  "decimal_val (Decimal s c e) = (if s then - 1 else 1) * of_nat c * 10 powi e"
  by (simp add: decimal_val_def d_sint_def)

lemma abs_decimal_val: "\<bar>decimal_val d\<bar> = of_nat (d_int d) * 10 powi (d_exp d)"
  using pow10_pos [of "d_exp d"]
  by (simp add: decimal_val_def d_sint_def abs_mult)

lemma round_half_even_exact: "10 ^ k dvd c \<Longrightarrow> round_half_even c k = c div 10 ^ k"
  by (simp add: round_half_even_def Let_def)

lemma pow10_shift:
  assumes "(of_nat c :: rat) * 10 powi e = of_nat c' * 10 powi e'" and "e \<le> e'"
  shows "c = c' * 10 ^ nat (e' - e)"
proof -
  have "(10::rat) powi e' = 10 powi e * 10 ^ nat (e' - e)"
    using power_int_add [of "10::rat" e "e' - e"] assms(2) by (simp add: power_int_nonneg_exp)
  then have "(of_nat c :: rat) * 10 powi e = of_nat (c' * 10 ^ nat (e' - e)) * 10 powi e"
    using assms(1) by simp
  then have "(of_nat c :: rat) = of_nat (c' * 10 ^ nat (e' - e))"
    using pow10_pos [of e] by (simp only: mult_cancel_right) simp
  then show ?thesis
    by (simp only: of_nat_eq_iff)
qed

lemma decimal_fix_representable:
  assumes p: "0 < p" and rep: "representable p (decimal_val d)"
  shows "decimal_val (decimal_fix p d) = decimal_val d"
proof (cases "d_int d = 0 \<or> ndigits (d_int d) \<le> p")
  case True
  then show ?thesis by (simp add: decimal_fix_def)
next
  case False
  define c where "c = d_int d"
  define e where "e = d_exp d"
  define nd where "nd = ndigits c"
  define k where "k = nd - p"
  from False have big: "p < nd" and c0: "c \<noteq> 0"
    by (simp_all add: nd_def c_def)
  have c_ge: "10 ^ p \<le> c"
    using False ndigits_le_iff [OF p, of c] by (simp add: c_def)
  have c_lt: "c < 10 ^ nd"
    unfolding nd_def by (rule ndigits_bound)
  have c_low: "10 ^ (nd - 1) \<le> c"
  proof -
    have "0 < nd - 1" using big p by simp
    then have "ndigits c \<le> nd - 1 \<longleftrightarrow> c < 10 ^ (nd - 1)"
      by (rule ndigits_le_iff)
    moreover have "\<not> ndigits c \<le> nd - 1"
      using big by (simp add: nd_def)
    ultimately show ?thesis by simp
  qed
  from rep obtain c' e' where c': "c' < 10 ^ p"
    and eq: "(of_nat c :: rat) * 10 powi e = of_nat c' * 10 powi e'"
    unfolding representable_def abs_decimal_val c_def e_def by blast
  have less: "e < e'"
  proof (rule ccontr)
    assume "\<not> e < e'"
    then have "e' \<le> e" by simp
    from pow10_shift [OF eq [symmetric] this] have "c' = c * 10 ^ nat (e - e')" .
    then have "c \<le> c'" by simp
    with c_ge c' show False by simp
  qed
  define j where "j = nat (e' - e)"
  have cj: "c = c' * 10 ^ j"
    unfolding j_def using pow10_shift [OF eq] less by simp
  have "k \<le> j"
  proof -
    have "(10::nat) ^ (nd - 1) < 10 ^ (p + j)"
    proof -
      have "c' * 10 ^ j < 10 ^ p * 10 ^ j"
        using c' by simp
      with c_low cj have "(10::nat) ^ (nd - 1) < 10 ^ p * 10 ^ j"
        by linarith
      then show ?thesis
        by (simp only: power_add)
    qed
    then have "nd - 1 < p + j"
      by (rule power_less_imp_less_exp [rotated]) simp
    then show ?thesis
      unfolding k_def by linarith
  qed
  then have split: "c = (c' * 10 ^ (j - k)) * 10 ^ k"
    using cj by (simp add: power_add [symmetric])
  define q where "q = c' * 10 ^ (j - k)"
  have cq: "c = q * 10 ^ k"
    using split by (simp add: q_def)
  have rhe: "round_half_even c k = q"
    using round_half_even_exact [of k c] cq by simp
  have q_lt: "q < 10 ^ p"
  proof -
    have "q * 10 ^ k < 10 ^ p * 10 ^ k"
      using c_lt cq big by (simp add: k_def power_add [symmetric])
    then show ?thesis by simp
  qed
  then have ndq: "ndigits q \<le> p"
    using ndigits_le_iff [OF p] by simp
  have fx: "decimal_fix p d = Decimal (d_sign d) q (e + int k)"
    using False rhe ndq
    by (simp add: decimal_fix_def Let_def c_def [symmetric] nd_def [symmetric] k_def [symmetric] e_def)
  have "(of_nat q :: rat) * 10 powi (e + int k) = of_nat c * 10 powi e"
    using power_int_add [of "10::rat" e "int k"] by (simp add: cq)
  then have "decimal_val (Decimal (d_sign d) q (e + int k)) = decimal_val d"
    by (simp add: decimal_val_Decimal decimal_val_def d_sint_def c_def e_def)
  with fx show ?thesis by simp
qed

lemma decimal_fix_bounded:
  assumes p: "0 < p"
  shows "d_int (decimal_fix p d) < 10 ^ p"
proof (cases "d_int d = 0 \<or> ndigits (d_int d) \<le> p")
  case True
  then show ?thesis
    using ndigits_le_iff [OF p, of "d_int d"] by (auto simp: decimal_fix_def)
next
  case False
  define c where "c = d_int d"
  define k where "k = ndigits c - p"
  define q where "q = round_half_even c k"
  have big: "p < ndigits c" using False by (simp add: c_def)
  have "c < 10 ^ (p + k)"
    using ndigits_bound [of c] big by (simp add: k_def)
  then have "c div 10 ^ k < 10 ^ p"
    by (simp add: power_add less_mult_imp_div_less mult.commute)
  then have q_le: "q \<le> 10 ^ p"
    by (simp add: q_def round_half_even_def Let_def)
  show ?thesis
  proof (cases "p < ndigits q")
    case True
    have "q div 10 \<le> 10 ^ p div 10"
      using q_le by (rule div_le_mono)
    also have "\<dots> < 10 ^ p"
      using p by simp
    finally show ?thesis
      using False True
      by (simp add: decimal_fix_def Let_def c_def [symmetric] k_def [symmetric] q_def [symmetric])
  next
    case nb: False
    then have "q < 10 ^ p"
      using ndigits_le_iff [OF p, of q] by simp
    then show ?thesis
      using False nb
      by (simp add: decimal_fix_def Let_def c_def [symmetric] k_def [symmetric] q_def [symmetric])
  qed
qed

lemma representable_fix: "0 < p \<Longrightarrow> representable p (decimal_val (decimal_fix p d))"
  unfolding representable_def abs_decimal_val
  using decimal_fix_bounded [of p d] by blast

lemma decimal_val_signed:
  "decimal_val (Decimal (if z = 0 then s else z < 0) (nat \<bar>z\<bar>) m) = of_int z * 10 powi m"
  by (simp add: decimal_val_def d_sint_def)

lemma decimal_val_add:
  assumes "representable context_prec (decimal_val a + decimal_val b)"
  shows "decimal_val (decimal_add a b) = decimal_val a + decimal_val b"
proof -
  let ?m = "min (d_exp a) (d_exp b)"
  let ?z = "d_sint a * 10 ^ nat (d_exp a - ?m) + d_sint b * 10 ^ nat (d_exp b - ?m)"
  let ?d = "Decimal (if ?z = 0 then d_sign a \<and> d_sign b else ?z < 0) (nat \<bar>?z\<bar>) ?m"
  have "decimal_val ?d = of_int ?z * 10 powi ?m"
    by (rule decimal_val_signed)
  also have "\<dots> = of_int (d_sint a * 10 ^ nat (d_exp a - ?m)) * 10 powi ?m
                   + of_int (d_sint b * 10 ^ nat (d_exp b - ?m)) * 10 powi ?m"
    by (simp only: of_int_add distrib_right)
  also have "\<dots> = decimal_val a + decimal_val b"
    by (simp only: decimal_val_aligned)
  finally have v: "decimal_val ?d = decimal_val a + decimal_val b" .
  have "decimal_val (decimal_fix context_prec ?d) = decimal_val ?d"
  proof (rule decimal_fix_representable)
    show "0 < context_prec" by (simp add: context_prec_def)
    show "representable context_prec (decimal_val ?d)" using assms by (simp only: v)
  qed
  with v show ?thesis
    by (simp add: decimal_add_def Let_def)
qed

lemma representable_mul: "representable context_prec (decimal_val (decimal_mul a b))"
  unfolding decimal_mul_def by (rule representable_fix) (simp add: context_prec_def)

lemma gross_of_scaled:
  fixes r m
  defines "a \<equiv> money_mul (net m) (net_ratio r)"
    and "G \<equiv> money_mul (gross m) (gross_ratio r)"
  assumes exact: "decimal_val (amount (money_sub G a)) = decimal_val (amount G) - decimal_val (amount a)"
  shows "money_eq (gross (MoneyWithVATRatio_mul_vat r m)) G"
proof -
  have sum: "decimal_val (amount a) + decimal_val (amount (money_sub G a)) = decimal_val (amount G)"
    using exact by simp
  have "representable context_prec (decimal_val (amount G))"
    using representable_mul [of "amount (gross m)" "gross_ratio r"]
    by (simp add: G_def money_mul_def)
  then have rep: "representable context_prec (decimal_val (amount a) + decimal_val (amount (money_sub G a)))"
    by (simp only: sum)
  have "gross (MoneyWithVATRatio_mul_vat r m) = money_add a (money_sub G a)"
    by (simp add: MoneyWithVATRatio_mul_vat_def Let_def gross_def a_def G_def)
  then have "decimal_val (amount (gross (MoneyWithVATRatio_mul_vat r m)))
               = decimal_val (amount a) + decimal_val (amount (money_sub G a))"
    using decimal_val_add [OF rep] by (simp add: money_add_def)
  then show ?thesis
    by (simp add: money_eq_def decimal_eq_iff sum)
qed

lemma mul_ratio_vat:
  "binary_op Mul (PMoneyWithVATRatio r) (PMoneyWithVAT m) = Inr (PMoneyWithVAT (MoneyWithVATRatio_mul_vat r m))"
  "binary_op Mul (PMoneyWithVAT m) (PMoneyWithVATRatio r) = Inr (PMoneyWithVAT (MoneyWithVATRatio_mul_vat r m))"
  by (simp_all add: binary_op_def call_or_decline_def special_def MoneyWithVATRatio__mul_def
      MoneyWithVAT__mul_def convert_other_def as_int_def)

subsection \<open>Operand combinations\<close>

lemmas op_ev = binary_op_def call_or_decline_def special_def reflected_def type_of_def as_int_def
  convert_other_def neg_def int_special_def int_reflected_def Decimal_special_def
  Decimal_reflected_def str_add_def str_mul_def Money__add_def Money__mul_def Money__sub_def
  Money__radd_def Money__rsub_def MoneyWithVAT__add_def MoneyWithVAT__sub_def MoneyWithVAT__mul_def
  MoneyWithVAT__radd_def MoneyWithVATRatio__mul_def MoneyWithVATRatio__add_def
  MoneyWithVATRatio__sub_def isinstance_MoneyWithVAT_def

text \<open>
  C6 (amended). \<open>Money * Money\<close> raises \<open>TypeError\<close>. \<open>MoneyWithVAT + x\<close> with \<open>x\<close> not a
  \<open>MoneyWithVAT\<close> raises \<open>AttributeError\<close> (\<open>x\<close> has no attribute \<open>net\<close>). Reverse addition
  and subtraction with a \<open>Money\<close> on the right, \<open>x + m\<close> and \<open>x - m\<close>, raise \<open>TypeError\<close> when
  \<open>x\<close> is a non-zero int, and \<open>TypeError\<close> or \<open>AttributeError\<close> when \<open>x\<close> is any other
  non-\<open>Money\<close> value. The integer zero (and \<open>False\<close>, which is the int \<open>0\<close>) is the
  exception: \<open>0 + m == m\<close> and \<open>0 - m == -m\<close> for every \<open>Money\<close> \<open>m\<close>, and \<open>0 + m == m\<close> for
  every \<open>MoneyWithVAT\<close> \<open>m\<close>. Reverse multiplication is supported: \<open>n * m\<close> is the product
  for an int \<open>n\<close>.
\<close>

theorem operand_combinations:
  "binary_op Mul (PMoney a) (PMoney b) = Inl TypeError
   \<and> (\<not> isinstance_MoneyWithVAT x \<longrightarrow> binary_op Add (PMoneyWithVAT v) x = Inl AttributeError)
   \<and> (as_int x = Some n \<and> n \<noteq> 0 \<longrightarrow>
         binary_op Add x (PMoney a) = Inl TypeError \<and> binary_op Sub x (PMoney a) = Inl TypeError)
   \<and> (as_int x = None \<and> type_of x \<noteq> MoneyType \<longrightarrow>
         (binary_op Add x (PMoney a) = Inl TypeError \<or> binary_op Add x (PMoney a) = Inl AttributeError)
       \<and> (binary_op Sub x (PMoney a) = Inl TypeError \<or> binary_op Sub x (PMoney a) = Inl AttributeError))
   \<and> binary_op Add (PInt 0) (PMoney a) = Inr (PMoney a)
   \<and> binary_op Sub (PInt 0) (PMoney a) = Inr (PMoney (money_neg a))
   \<and> binary_op Add (PInt 0) (PMoneyWithVAT v) = Inr (PMoneyWithVAT v)
   \<and> (as_int x = Some n \<and> n \<noteq> 0 \<longrightarrow>
         binary_op Mul x (PMoney a) = Inr (PMoney (money_mul a (decimal_of_int n))))
   \<and> (as_int x = Some 0 \<longrightarrow>
         binary_op Add x (PMoney a) = Inr (PMoney a)
       \<and> binary_op Sub x (PMoney a) = Inr (PMoney (money_neg a))
       \<and> binary_op Add x (PMoneyWithVAT v) = Inr (PMoneyWithVAT v)
       \<and> binary_op Mul x (PMoney a) = Inr (PMoney (money_mul a (decimal_of_int 0))))"
proof (intro conjI impI)
  show "binary_op Add x (PMoney a) = Inr (PMoney a)" if "as_int x = Some 0"
    using that by (cases x) (auto simp: op_ev split: if_splits)
  show "binary_op Sub x (PMoney a) = Inr (PMoney (money_neg a))" if "as_int x = Some 0"
    using that by (cases x) (auto simp: op_ev split: if_splits)
  show "binary_op Add x (PMoneyWithVAT v) = Inr (PMoneyWithVAT v)" if "as_int x = Some 0"
    using that by (cases x) (auto simp: op_ev split: if_splits)
  show "binary_op Mul x (PMoney a) = Inr (PMoney (money_mul a (decimal_of_int 0)))" if "as_int x = Some 0"
    using that by (cases x) (auto simp: op_ev split: if_splits)
  show "binary_op Mul (PMoney a) (PMoney b) = Inl TypeError"
    by (simp add: op_ev)
  show "binary_op Add (PMoneyWithVAT v) x = Inl AttributeError" if "\<not> isinstance_MoneyWithVAT x"
    using that by (cases x) (simp_all add: op_ev)
  show "binary_op Add (PInt 0) (PMoney a) = Inr (PMoney a)"
    by (simp add: op_ev)
  show "binary_op Sub (PInt 0) (PMoney a) = Inr (PMoney (money_neg a))"
    by (simp add: op_ev)
  show "binary_op Add (PInt 0) (PMoneyWithVAT v) = Inr (PMoneyWithVAT v)"
    by (simp add: op_ev)
next
  assume "as_int x = Some n \<and> n \<noteq> 0"
  then show "binary_op Add x (PMoney a) = Inl TypeError"
    by (cases x) (auto simp: op_ev split: if_splits)
next
  assume "as_int x = Some n \<and> n \<noteq> 0"
  then show "binary_op Sub x (PMoney a) = Inl TypeError"
    by (cases x) (auto simp: op_ev split: if_splits)
next
  assume "as_int x = Some n \<and> n \<noteq> 0"
  then show "binary_op Mul x (PMoney a) = Inr (PMoney (money_mul a (decimal_of_int n)))"
    by (cases x) (auto simp: op_ev split: if_splits)
next
  assume "as_int x = None \<and> type_of x \<noteq> MoneyType"
  then show "binary_op Add x (PMoney a) = Inl TypeError \<or> binary_op Add x (PMoney a) = Inl AttributeError"
    by (cases x) (auto simp: op_ev)
next
  assume "as_int x = None \<and> type_of x \<noteq> MoneyType"
  then show "binary_op Sub x (PMoney a) = Inl TypeError \<or> binary_op Sub x (PMoney a) = Inl AttributeError"
    by (cases x) (auto simp: op_ev)
qed

theorem operand_combinations_witness:
  "binary_op Add (PMoneyWithVAT (vat 1 1)) (PInt 5) = Inl AttributeError
   \<and> binary_op Add (PInt 5) (PMoney (Money (decimal_of_int 3))) = Inl TypeError
   \<and> binary_op Sub (PInt 5) (PMoney (Money (decimal_of_int 3))) = Inl TypeError
   \<and> binary_op Mul (PInt 5) (PMoney (Money (decimal_of_int 3)))
       = Inr (PMoney (money_mul (Money (decimal_of_int 3)) (decimal_of_int 5)))
   \<and> (binary_op Sub (PStr ''123'') (PMoney (Money (decimal_of_int 3))) = Inl TypeError
      \<or> binary_op Sub (PStr ''123'') (PMoney (Money (decimal_of_int 3))) = Inl AttributeError)"
proof -
  have i: "as_int (PInt 5) = Some 5 \<and> (5::int) \<noteq> 0" "\<not> isinstance_MoneyWithVAT (PInt 5)"
    by (simp_all add: as_int_def isinstance_MoneyWithVAT_def)
  have s: "as_int (PStr ''123'') = None \<and> type_of (PStr ''123'') \<noteq> MoneyType"
    by (simp add: as_int_def type_of_def)
  show ?thesis
    using operand_combinations [where x = "PInt 5" and n = 5 and a = "Money (decimal_of_int 3)"
        and v = "vat 1 1"] i
      operand_combinations [where x = "PStr ''123''" and a = "Money (decimal_of_int 3)"] s
    by blast
qed

text \<open>
  The claim as stated has every reverse operation with a non-zero, non-\<open>Money\<close> left
  operand fail; \<open>3 * Money(2)\<close> is \<open>Money(6)\<close>.
\<close>

theorem reverse_mul_counterexample:
  "binary_op Mul (PInt 3) (PMoney (Money (decimal_of_int 2))) = Inr (PMoney (Money (Decimal False 6 0)))"
  by (simp add: op_ev money_ev dec_ev)

text \<open>
  \<open>MoneyWithVAT.__rsub__\<close> is \<open>__sub__\<close>, so \<open>0 - m\<close> evaluates \<open>m.__add__(-0)\<close>, which reads
  \<open>(0).net\<close>.
\<close>

lemma MoneyWithVAT_rsub_zero: "binary_op Sub (PInt 0) (PMoneyWithVAT v) = Inl AttributeError"
  by (simp add: op_ev)

subsection \<open>Scaling a \<open>MoneyWithVAT\<close> by a ratio\<close>

lemma ratio_fixture_eq: "ratio (PMoneyWithVAT (vat 100 19)) (PMoneyWithVAT (vat 200 14)) = Inr ratio_fixture"
proof -
  have s: "strip_zeros 50000000000000000000000000000 (- 29) 0 = (5, - 1)"
    using strip_zeros_mult [of "- 29" 28 0 5] by (simp add: strip_zeros_stop)
  show ?thesis
    by (simp add: ratio_def from_money_with_vat_def vat_def ratio_fixture_def dec_ev money_ev s
        cong: let_weak_cong)
qed

lemma ratio_fixture_mul:
  "MoneyWithVATRatio_mul_vat ratio_fixture (vat 200 14)
     = MoneyWithVAT (Money (Decimal False 1000 (- 1))) (Money (Decimal False 190000000000000000000000000 (- 25)))"
  by (simp add: MoneyWithVATRatio_mul_vat_def vat_def ratio_fixture_def dec_ev money_ev cong: let_weak_cong)

lemma ratio_fixture_cents:
  "rounded_to_cents (MoneyWithVAT (Money (Decimal False 1000 (- 1))) (Money (Decimal False 190000000000000000000000000 (- 25))))
     = Inr (MoneyWithVAT (Money (Decimal False 10000 (- 2))) (Money (Decimal False 1900 (- 2))))"
  "rounded_to_cents (vat 100 19)
     = Inr (MoneyWithVAT (Money (Decimal False 10000 (- 2))) (Money (Decimal False 1900 (- 2))))"
  by (simp_all add: rounded_to_cents_def vat_def dec_ev money_ev cong: let_weak_cong)

text \<open>
  C7 (amended). \<open>r * m\<close> has net \<open>r.net_ratio * m.net\<close> and tax
  \<open>r.gross_ratio * m.gross\<close> minus that net, and \<open>m * r\<close> is the same operation. The gross of
  the result equals \<open>r.gross_ratio * m.gross\<close> whenever the subtraction that computes the tax
  is exact, that is, not rounded to the 28 digits of the context. For \<open>m = (100, 19)\<close> and
  \<open>n = (200, 14)\<close>, \<open>ratio(m, n) * n\<close> and \<open>n * ratio(m, n)\<close> rounded to cents equal \<open>m\<close>
  rounded to cents.
\<close>

theorem ratio_mul_gross:
  "binary_op Mul (PMoneyWithVATRatio r) (PMoneyWithVAT m)
     = Inr (PMoneyWithVAT (MoneyWithVAT (money_mul (net m) (net_ratio r))
              (money_sub (money_mul (gross m) (gross_ratio r)) (money_mul (net m) (net_ratio r)))))
   \<and> binary_op Mul (PMoneyWithVAT m) (PMoneyWithVATRatio r)
       = binary_op Mul (PMoneyWithVATRatio r) (PMoneyWithVAT m)
   \<and> (decimal_val (amount (money_sub (money_mul (gross m) (gross_ratio r)) (money_mul (net m) (net_ratio r))))
         = decimal_val (amount (money_mul (gross m) (gross_ratio r)))
           - decimal_val (amount (money_mul (net m) (net_ratio r)))
       \<longrightarrow> money_eq (gross (MoneyWithVATRatio_mul_vat r m)) (money_mul (gross m) (gross_ratio r)))
   \<and> (\<exists>r0 p q q'.
          ratio (PMoneyWithVAT (vat 100 19)) (PMoneyWithVAT (vat 200 14)) = Inr r0
        \<and> binary_op Mul (PMoneyWithVATRatio r0) (PMoneyWithVAT (vat 200 14)) = Inr (PMoneyWithVAT p)
        \<and> binary_op Mul (PMoneyWithVAT (vat 200 14)) (PMoneyWithVATRatio r0) = Inr (PMoneyWithVAT p)
        \<and> rounded_to_cents p = Inr q \<and> rounded_to_cents (vat 100 19) = Inr q'
        \<and> money_with_vat_eq q q')"
proof (intro conjI impI)
  show "binary_op Mul (PMoneyWithVATRatio r) (PMoneyWithVAT m)
     = Inr (PMoneyWithVAT (MoneyWithVAT (money_mul (net m) (net_ratio r))
              (money_sub (money_mul (gross m) (gross_ratio r)) (money_mul (net m) (net_ratio r)))))"
    by (simp add: mul_ratio_vat MoneyWithVATRatio_mul_vat_def Let_def)
  show "binary_op Mul (PMoneyWithVAT m) (PMoneyWithVATRatio r)
       = binary_op Mul (PMoneyWithVATRatio r) (PMoneyWithVAT m)"
    by (simp add: mul_ratio_vat)
  show "money_eq (gross (MoneyWithVATRatio_mul_vat r m)) (money_mul (gross m) (gross_ratio r))"
    if "decimal_val (amount (money_sub (money_mul (gross m) (gross_ratio r)) (money_mul (net m) (net_ratio r))))
         = decimal_val (amount (money_mul (gross m) (gross_ratio r)))
           - decimal_val (amount (money_mul (net m) (net_ratio r)))"
    using that by (rule gross_of_scaled)
  have "money_with_vat_eq (MoneyWithVAT (Money (Decimal False 10000 (- 2))) (Money (Decimal False 1900 (- 2))))
          (MoneyWithVAT (Money (Decimal False 10000 (- 2))) (Money (Decimal False 1900 (- 2))))"
    by (simp add: money_with_vat_eq_def money_eq_def decimal_eq_refl)
  then show "\<exists>r0 p q q'.
          ratio (PMoneyWithVAT (vat 100 19)) (PMoneyWithVAT (vat 200 14)) = Inr r0
        \<and> binary_op Mul (PMoneyWithVATRatio r0) (PMoneyWithVAT (vat 200 14)) = Inr (PMoneyWithVAT p)
        \<and> binary_op Mul (PMoneyWithVAT (vat 200 14)) (PMoneyWithVATRatio r0) = Inr (PMoneyWithVAT p)
        \<and> rounded_to_cents p = Inr q \<and> rounded_to_cents (vat 100 19) = Inr q'
        \<and> money_with_vat_eq q q'"
    using ratio_fixture_eq ratio_fixture_mul ratio_fixture_cents mul_ratio_vat by metis
qed

theorem ratio_mul_gross_witness:
  "decimal_val (amount (money_sub (money_mul (gross (vat 200 14)) (gross_ratio ratio_fixture))
                                  (money_mul (net (vat 200 14)) (net_ratio ratio_fixture))))
     = decimal_val (amount (money_mul (gross (vat 200 14)) (gross_ratio ratio_fixture)))
       - decimal_val (amount (money_mul (net (vat 200 14)) (net_ratio ratio_fixture)))
   \<and> money_eq (gross (MoneyWithVATRatio_mul_vat ratio_fixture (vat 200 14)))
        (money_mul (gross (vat 200 14)) (gross_ratio ratio_fixture))"
proof -
  have a: "money_mul (net (vat 200 14)) (net_ratio ratio_fixture) = Money (Decimal False 1000 (- 1))"
    by (simp add: vat_def ratio_fixture_def dec_ev money_ev cong: let_weak_cong)
  have G: "money_mul (gross (vat 200 14)) (gross_ratio ratio_fixture)
             = Money (Decimal False 1190000000000000000000000000 (- 25))"
    by (simp add: vat_def ratio_fixture_def dec_ev money_ev cong: let_weak_cong)
  have t: "money_sub (Money (Decimal False 1190000000000000000000000000 (- 25))) (Money (Decimal False 1000 (- 1)))
             = Money (Decimal False 190000000000000000000000000 (- 25))"
    by (simp add: dec_ev money_ev cong: let_weak_cong)
  have exact: "decimal_val (amount (money_sub (money_mul (gross (vat 200 14)) (gross_ratio ratio_fixture))
                                  (money_mul (net (vat 200 14)) (net_ratio ratio_fixture))))
     = decimal_val (amount (money_mul (gross (vat 200 14)) (gross_ratio ratio_fixture)))
       - decimal_val (amount (money_mul (net (vat 200 14)) (net_ratio ratio_fixture)))"
    unfolding a G t by (simp add: decimal_val_def d_sint_def)
  with ratio_mul_gross [of ratio_fixture "vat 200 14"] show ?thesis
    by blast
qed

text \<open>
  The claim as stated has the gross of \<open>r * m\<close> equal to \<open>r.gross_ratio * m.gross\<close> for
  every \<open>r\<close> and \<open>m\<close>. With \<open>r = ratio((1, 0), (3, 0))\<close> and \<open>m = (3000000, -2999999)\<close> the
  tax \<open>0.333... - 999999.999...\<close> is rounded to 28 digits, and the gross of the result is
  \<open>0.3333333333333333333333\<close>, not \<open>0.3333333333333333333333333333\<close>.
\<close>

theorem ratio_mul_gross_counterexample:
  "ratio (PMoneyWithVAT (vat 1 0)) (PMoneyWithVAT (vat 3 0)) = Inr third
   \<and> \<not> money_eq (gross (MoneyWithVATRatio_mul_vat third (vat 3000000 (- 2999999))))
               (money_mul (gross (vat 3000000 (- 2999999))) (gross_ratio third))"
proof -
  have r: "ratio (PMoneyWithVAT (vat 1 0)) (PMoneyWithVAT (vat 3 0)) = Inr third"
    by (simp add: ratio_def from_money_with_vat_def vat_def third_def dec_ev money_ev cong: let_weak_cong)
  have p: "MoneyWithVATRatio_mul_vat third (vat 3000000 (- 2999999))
             = MoneyWithVAT (Money (Decimal False 9999999999999999999999999999 (- 22)))
                 (Money (Decimal True 9999996666666666666666666666 (- 22)))"
    by (simp add: MoneyWithVATRatio_mul_vat_def vat_def third_def dec_ev money_ev cong: let_weak_cong)
  have g: "gross (MoneyWithVAT (Money (Decimal False 9999999999999999999999999999 (- 22)))
                 (Money (Decimal True 9999996666666666666666666666 (- 22))))
             = Money (Decimal False 3333333333333333333333 (- 22))"
    by (simp add: dec_ev money_ev cong: let_weak_cong)
  have G: "money_mul (gross (vat 3000000 (- 2999999))) (gross_ratio third)
             = Money (Decimal False 3333333333333333333333333333 (- 28))"
    by (simp add: vat_def third_def dec_ev money_ev cong: let_weak_cong)
  have "\<not> money_eq (Money (Decimal False 3333333333333333333333 (- 22)))
               (Money (Decimal False 3333333333333333333333333333 (- 28)))"
    by (simp add: money_eq_def decimal_eq_def d_sint_def)
  with r show ?thesis
    unfolding p g G by simp
qed

subsection \<open>Rounding to cents\<close>

lemma round_half_even_nearest:
  fixes c k :: nat
  defines "x \<equiv> (of_nat c :: rat) / 10 ^ k"
  shows "\<bar>x - of_nat (round_half_even c k)\<bar> \<le> 1 / 2
    \<and> (\<bar>x - of_nat (round_half_even c k)\<bar> = 1 / 2 \<longrightarrow> even (round_half_even c k))"
proof -
  define q where "q = c div 10 ^ k"
  define r where "r = c mod 10 ^ k"
  define P where "P = (10::nat) ^ k"
  define f where "f = (of_nat r :: rat) / of_nat P"
  have P: "0 < P" by (simp add: P_def)
  have c: "c = q * P + r"
    unfolding q_def r_def P_def by (rule div_mult_mod_eq [symmetric])
  have r: "r < P"
    by (simp add: r_def P_def)
  have x: "x = of_nat q + f"
    using P by (simp add: x_def c P_def [symmetric] f_def field_simps)
  have f01: "0 \<le> f" "f < 1"
    using r P by (simp_all add: f_def)
  have f_less: "f < 1 / 2 \<longleftrightarrow> 2 * r < P"
  proof -
    have "f < 1 / 2 \<longleftrightarrow> 2 * (of_nat r :: rat) < of_nat P"
      using P by (simp add: f_def field_simps)
    also have "\<dots> \<longleftrightarrow> (of_nat (2 * r) :: rat) < of_nat P" by simp
    also have "\<dots> \<longleftrightarrow> 2 * r < P" by (simp only: of_nat_less_iff)
    finally show ?thesis .
  qed
  have f_eq: "f = 1 / 2 \<longleftrightarrow> 2 * r = P"
  proof -
    have "f = 1 / 2 \<longleftrightarrow> 2 * (of_nat r :: rat) = of_nat P"
      using P by (auto simp: f_def field_simps)
    also have "\<dots> \<longleftrightarrow> (of_nat (2 * r) :: rat) = of_nat P" by simp
    also have "\<dots> \<longleftrightarrow> 2 * r = P" by (simp only: of_nat_eq_iff)
    finally show ?thesis .
  qed
  consider (up) "P < 2 * r" | (tie) "2 * r = P" | (down) "2 * r < P"
    by linarith
  then show ?thesis
  proof cases
    case up
    then have rhe: "round_half_even c k = q + 1"
      by (simp add: round_half_even_def Let_def q_def r_def P_def)
    have "1 / 2 < f"
      using up f_less f_eq by linarith
    then have "\<bar>f - 1\<bar> < 1 / 2"
      using f01 by linarith
    moreover have "x - of_nat (round_half_even c k) = f - 1"
      by (simp add: rhe x)
    ultimately show ?thesis by simp
  next
    case tie
    then have half: "f = 1 / 2"
      using f_eq by simp
    show ?thesis
    proof (cases "odd q")
      case True
      with tie have rhe: "round_half_even c k = q + 1"
        by (simp add: round_half_even_def Let_def q_def r_def P_def)
      have "x - of_nat (round_half_even c k) = - (1 / 2)"
        by (simp add: rhe x half)
      then show ?thesis using True by (simp add: rhe)
    next
      case False
      with tie have rhe: "round_half_even c k = q"
        by (simp add: round_half_even_def Let_def q_def r_def P_def)
      have "x - of_nat (round_half_even c k) = 1 / 2"
        by (simp add: rhe x half)
      then show ?thesis using False by (simp add: rhe)
    qed
  next
    case down
    then have rhe: "round_half_even c k = q"
      by (simp add: round_half_even_def Let_def q_def r_def P_def)
    have "f < 1 / 2"
      using down f_less by simp
    then have "\<bar>f\<bar> < 1 / 2"
      using f01 by linarith
    moreover have "x - of_nat (round_half_even c k) = f"
      by (simp add: rhe x)
    ultimately show ?thesis by simp
  qed
qed

lemma abs_val_shift:
  "\<bar>decimal_val d\<bar> * 10 powi (- e) = of_nat (d_int d) * 10 powi (d_exp d - e)"
  using power_int_add [of "10::rat" "d_exp d" "- e"] by (simp add: abs_decimal_val)

lemma decimal_quantize_props:
  assumes q: "decimal_quantize p d e = Inr q" and p: "0 < p"
  shows "d_exp q = e" and "d_sign q = d_sign d" and "d_int q < 10 ^ p"
    and "rounds_half_even d (- e) q"
proof -
  have all: "d_exp q = e \<and> d_sign q = d_sign d \<and> d_int q < 10 ^ p \<and> rounds_half_even d (- e) q"
  proof (cases "d_int d = 0")
    case True
    with q have "q = Decimal (d_sign d) 0 e"
      by (simp add: decimal_quantize_def)
    with True show ?thesis
      by (simp add: rounds_half_even_def abs_decimal_val)
  next
    case False
    let ?ans = "decimal_rescale d e"
    from q False have ans: "q = ?ans" and nd: "ndigits (d_int ?ans) \<le> p"
      by (auto simp: decimal_quantize_def Let_def split: if_splits)
    have bound: "d_int q < 10 ^ p"
      using nd ndigits_le_iff [OF p] by (simp add: ans)
    have basic: "d_exp q = e" "d_sign q = d_sign d"
      using False by (simp_all add: ans decimal_rescale_def)
    show ?thesis
    proof (cases "e \<le> d_exp d")
      case True
      then have c: "d_int q = d_int d * 10 ^ nat (d_exp d - e)"
        using False by (simp add: ans decimal_rescale_def)
      have "\<bar>decimal_val d\<bar> * 10 powi (- e) = of_nat (d_int q)"
        using True abs_val_shift [of d "e"]
        by (simp add: c power_int_nonneg_exp)
      then show ?thesis
        using bound basic by (simp add: rounds_half_even_def)
    next
      case up: False
      define k where "k = nat (e - d_exp d)"
      have c: "d_int q = round_half_even (d_int d) k"
        using False up by (simp add: ans decimal_rescale_def k_def)
      have "(10::rat) powi (d_exp d - e) = 1 / 10 ^ k"
        using up power_int_minus_divide [of "10::rat" "e - d_exp d"]
        by (simp add: k_def power_int_nonneg_exp)
      then have "\<bar>decimal_val d\<bar> * 10 powi (- e) = of_nat (d_int d) / 10 ^ k"
        using abs_val_shift [of d "e"] by simp
      then show ?thesis
        using bound basic round_half_even_nearest [of "d_int d" k]
        by (simp add: rounds_half_even_def c)
    qed
  qed
  then show "d_exp q = e" and "d_sign q = d_sign d" and "d_int q < 10 ^ p"
    and "rounds_half_even d (- e) q"
    by blast+
qed

lemma decimal_val_neg:
  assumes "d_int a < 10 ^ context_prec"
  shows "decimal_val (decimal_neg a) = - decimal_val a"
proof -
  have "decimal_neg a = Decimal (d_int a \<noteq> 0 \<and> \<not> d_sign a) (d_int a) (d_exp a)"
    unfolding decimal_neg_def using assms
    by (intro decimal_fix_small) (simp_all add: context_prec_def)
  then show ?thesis
    by (simp add: decimal_val_def d_sint_def)
qed

lemma representable_small:
  "d_int a < 10 ^ p \<Longrightarrow> representable p (decimal_val a)"
  unfolding representable_def abs_decimal_val by blast

lemma money_round_props:
  assumes "money_round m n = Inr r"
  shows "d_exp (amount r) = - n" and "d_int (amount r) < 10 ^ context_prec"
    and "rounds_half_even (amount m) n (amount r)"
proof -
  from assms obtain q where q: "decimal_quantize context_prec (amount m) (- n) = Inr q" and r: "r = Money q"
    by (auto simp: money_round_def decimal_round_def split: sum.splits)
  have p: "0 < context_prec" by (simp add: context_prec_def)
  show "d_exp (amount r) = - n" and "d_int (amount r) < 10 ^ context_prec"
    and "rounds_half_even (amount m) n (amount r)"
    using decimal_quantize_props [OF q p] by (simp_all add: r)
qed

lemma same_exponent_difference:
  assumes ea: "d_exp a = e" and eg: "d_exp g = e"
    and small: "\<bar>decimal_val g - decimal_val a\<bar> < 10 ^ context_prec * 10 powi e"
  shows "representable context_prec (decimal_val g - decimal_val a)"
proof -
  define z where "z = d_sint g - d_sint a"
  have v: "decimal_val g - decimal_val a = of_int z * 10 powi e"
    by (simp add: decimal_val_def ea eg z_def algebra_simps)
  have "\<bar>(of_int z :: rat)\<bar> * 10 powi e < 10 ^ context_prec * 10 powi e"
    using small pow10_pos [of e] by (simp add: v abs_mult)
  then have "\<bar>(of_int z :: rat)\<bar> < 10 ^ context_prec"
    using pow10_pos [of e] by (simp only: mult_less_cancel_right_pos)
  then have "(of_int \<bar>z\<bar> :: rat) < of_int (10 ^ context_prec)"
    by simp
  then have z: "\<bar>z\<bar> < 10 ^ context_prec"
    by (simp only: of_int_less_iff)
  have "\<bar>decimal_val g - decimal_val a\<bar> = of_nat (nat \<bar>z\<bar>) * 10 powi e"
    using pow10_pos [of e] by (simp add: v abs_mult)
  moreover have "nat \<bar>z\<bar> < 10 ^ context_prec"
    using z by (metis nat_less_iff abs_ge_zero of_nat_numeral of_nat_power)
  ultimately show ?thesis
    unfolding representable_def by blast
qed

lemma rounded_difference_exact:
  assumes ea: "d_exp a = - 2" and eg: "d_exp g = - 2"
    and ba: "d_int a < 10 ^ context_prec" and bg: "d_int g < 10 ^ context_prec"
    and small: "\<bar>decimal_val g - decimal_val a\<bar> < 10 ^ 26"
  shows "decimal_val (decimal_add g (decimal_neg a)) = decimal_val g - decimal_val a"
    and "decimal_val (decimal_add a (decimal_add g (decimal_neg a))) = decimal_val g"
proof -
  have "(10::rat) ^ 26 = 10 ^ context_prec * 10 powi (- 2)"
    by (simp add: context_prec_def)
  with small have "\<bar>decimal_val g - decimal_val a\<bar> < 10 ^ context_prec * 10 powi (- 2)"
    by simp
  then have rep: "representable context_prec (decimal_val g - decimal_val a)"
    using ea eg by (intro same_exponent_difference [of a "- 2" g]) simp_all
  have neg: "decimal_val (decimal_neg a) = - decimal_val a"
    using ba by (rule decimal_val_neg)
  show t: "decimal_val (decimal_add g (decimal_neg a)) = decimal_val g - decimal_val a"
    using decimal_val_add [of g "decimal_neg a"] rep by (simp add: neg)
  have "representable context_prec (decimal_val a + decimal_val (decimal_add g (decimal_neg a)))"
    using representable_small [OF bg] by (simp add: t)
  then show "decimal_val (decimal_add a (decimal_add g (decimal_neg a))) = decimal_val g"
    using decimal_val_add [of a "decimal_add g (decimal_neg a)"] by (simp add: t)
qed

lemma cents_fixture_rounded:
  "rounded_to_cents cents_fixture
     = Inr (MoneyWithVAT (Money (Decimal False 444 (- 2))) (Money (Decimal False 223 (- 2))))"
  "gross (MoneyWithVAT (Money (Decimal False 444 (- 2))) (Money (Decimal False 223 (- 2))))
     = Money (Decimal False 667 (- 2))"
  "money_round (gross cents_fixture) 2 = Inr (Money (Decimal False 667 (- 2)))"
  by (simp_all add: rounded_to_cents_def cents_fixture_def dec_ev money_ev cong: let_weak_cong)

text \<open>
  C2 (amended). When \<open>m.rounded_to_cents()\<close> returns, its net is \<open>m.net\<close> rounded half-even to
  2 decimals and its tax is \<open>m.gross.round(2)\<close> minus that rounded net; the tax is not rounded
  on its own. The gross of the result equals \<open>m.gross.round(2)\<close> whenever the rounded gross
  and the rounded net differ by less than \<open>10^26\<close>, so that their difference fits the 28 digits
  of the context. On \<open>net = 4.444, tax = 2.222\<close> the result is \<open>net = 4.44, tax = 2.23\<close>, with
  gross \<open>6.67\<close>.
\<close>

theorem rounded_to_cents_gross:
  assumes "rounded_to_cents m = Inr r"
  shows "(\<exists>rn rg. money_round (net m) 2 = Inr rn \<and> money_round (gross m) 2 = Inr rg
           \<and> r = MoneyWithVAT rn (money_sub rg rn)
           \<and> rounds_half_even (amount (net m)) 2 (amount rn)
           \<and> rounds_half_even (amount (gross m)) 2 (amount rg)
           \<and> (\<bar>decimal_val (amount rg) - decimal_val (amount rn)\<bar> < 10 ^ 26 \<longrightarrow>
                 decimal_val (amount (tax r)) = decimal_val (amount rg) - decimal_val (amount rn)
               \<and> decimal_val (amount (gross r)) = decimal_val (amount rg)
               \<and> money_eq (gross r) rg))
       \<and> rounded_to_cents cents_fixture
           = Inr (MoneyWithVAT (Money (Decimal False 444 (- 2))) (Money (Decimal False 223 (- 2))))
       \<and> gross (MoneyWithVAT (Money (Decimal False 444 (- 2))) (Money (Decimal False 223 (- 2))))
           = Money (Decimal False 667 (- 2))"
proof -
  from assms obtain rn rg where rn: "money_round (net m) 2 = Inr rn"
    and rg: "money_round (gross m) 2 = Inr rg"
    and r: "r = MoneyWithVAT rn (money_sub rg rn)"
    by (auto simp: rounded_to_cents_def split: sum.splits)
  note pn = money_round_props [OF rn]
  note pg = money_round_props [OF rg]
  have ex: "decimal_val (amount (tax r)) = decimal_val (amount rg) - decimal_val (amount rn)
               \<and> decimal_val (amount (gross r)) = decimal_val (amount rg)
               \<and> money_eq (gross r) rg"
    if small: "\<bar>decimal_val (amount rg) - decimal_val (amount rn)\<bar> < 10 ^ 26"
  proof -
    have e: "d_exp (amount rn) = - 2" "d_exp (amount rg) = - 2"
      using pn(1) pg(1) by simp_all
    note d = rounded_difference_exact [OF e pn(2) pg(2) small]
    have t: "amount (tax r) = decimal_add (amount rg) (decimal_neg (amount rn))"
      by (simp add: r money_sub_def money_add_def money_neg_def)
    have g: "amount (gross r) = decimal_add (amount rn) (decimal_add (amount rg) (decimal_neg (amount rn)))"
      by (simp add: r gross_def money_sub_def money_add_def money_neg_def)
    show ?thesis
      using d by (simp add: t g money_eq_def decimal_eq_iff)
  qed
  show ?thesis
    using rn rg r pn(3) pg(3) ex cents_fixture_rounded(1,2) by blast
qed

theorem rounded_to_cents_gross_witness:
  "rounded_to_cents cents_fixture
     = Inr (MoneyWithVAT (Money (Decimal False 444 (- 2))) (Money (Decimal False 223 (- 2))))
   \<and> money_round (gross cents_fixture) 2 = Inr (Money (Decimal False 667 (- 2)))
   \<and> money_eq (gross (MoneyWithVAT (Money (Decimal False 444 (- 2))) (Money (Decimal False 223 (- 2)))))
        (Money (Decimal False 667 (- 2)))"
proof -
  let ?r = "MoneyWithVAT (Money (Decimal False 444 (- 2))) (Money (Decimal False 223 (- 2)))"
  have rn: "money_round (net cents_fixture) 2 = Inr (Money (Decimal False 444 (- 2)))"
    by (simp add: cents_fixture_def dec_ev money_ev cong: let_weak_cong)
  have small: "\<bar>decimal_val (amount (Money (Decimal False 667 (- 2))))
                 - decimal_val (amount (Money (Decimal False 444 (- 2))))\<bar> < 10 ^ 26"
    by (simp add: decimal_val_def d_sint_def)
  from rounded_to_cents_gross [OF cents_fixture_rounded(1)]
  obtain rn' rg' where "money_round (net cents_fixture) 2 = Inr rn'"
    and "money_round (gross cents_fixture) 2 = Inr rg'"
    and imp: "\<bar>decimal_val (amount rg') - decimal_val (amount rn')\<bar> < 10 ^ 26 \<longrightarrow>
                 decimal_val (amount (tax ?r)) = decimal_val (amount rg') - decimal_val (amount rn')
               \<and> decimal_val (amount (gross ?r)) = decimal_val (amount rg')
               \<and> money_eq (gross ?r) rg'"
    by blast
  then have "rn' = Money (Decimal False 444 (- 2))" "rg' = Money (Decimal False 667 (- 2))"
    using rn cents_fixture_rounded(3) by simp_all
  with imp small have "money_eq (gross ?r) (Money (Decimal False 667 (- 2)))"
    by blast
  with cents_fixture_rounded show ?thesis by simp
qed

text \<open>
  The claim as stated has the gross of the result equal to \<open>m.gross.round(2)\<close> for every
  \<open>m\<close>. For the large amounts above, the difference of the rounded gross and the rounded net
  has 29 digits and loses its last one: the gross of the result is
  \<open>90000000000000000000000000.00\<close>, and \<open>m.gross.round(2)\<close> is
  \<open>90000000000000000000000000.01\<close>.
\<close>

theorem rounded_to_cents_large_counterexample:
  "rounded_to_cents cents_large
     = Inr (MoneyWithVAT (Money (Decimal True 9000000000000000000000000000 (- 2)))
                         (Money (Decimal False 1800000000000000000000000000 (- 1))))
   \<and> money_round (gross cents_large) 2 = Inr (Money (Decimal False 9000000000000000000000000001 (- 2)))
   \<and> gross (MoneyWithVAT (Money (Decimal True 9000000000000000000000000000 (- 2)))
                         (Money (Decimal False 1800000000000000000000000000 (- 1))))
       = Money (Decimal False 9000000000000000000000000000 (- 2))
   \<and> \<not> money_eq (Money (Decimal False 9000000000000000000000000000 (- 2)))
                (Money (Decimal False 9000000000000000000000000001 (- 2)))"
proof -
  have g: "gross cents_large = Money (Decimal False 9000000000000000000000000001 (- 2))"
    by (simp add: cents_large_def dec_ev money_ev cong: let_weak_cong)
  have rg: "money_round (Money (Decimal False 9000000000000000000000000001 (- 2))) 2
              = Inr (Money (Decimal False 9000000000000000000000000001 (- 2)))"
    by (simp add: dec_ev money_ev cong: let_weak_cong)
  have rn: "money_round (net cents_large) 2 = Inr (Money (Decimal True 9000000000000000000000000000 (- 2)))"
    by (simp add: cents_large_def dec_ev money_ev cong: let_weak_cong)
  have t: "money_sub (Money (Decimal False 9000000000000000000000000001 (- 2)))
                     (Money (Decimal True 9000000000000000000000000000 (- 2)))
             = Money (Decimal False 1800000000000000000000000000 (- 1))"
    by (simp add: dec_ev money_ev cong: let_weak_cong)
  have r: "rounded_to_cents cents_large
     = Inr (MoneyWithVAT (Money (Decimal True 9000000000000000000000000000 (- 2)))
                         (Money (Decimal False 1800000000000000000000000000 (- 1))))"
    unfolding rounded_to_cents_def rn g rg by (simp add: t)
  have g': "gross (MoneyWithVAT (Money (Decimal True 9000000000000000000000000000 (- 2)))
                         (Money (Decimal False 1800000000000000000000000000 (- 1))))
       = Money (Decimal False 9000000000000000000000000000 (- 2))"
    by (simp add: dec_ev money_ev cong: let_weak_cong)
  have ne: "\<not> money_eq (Money (Decimal False 9000000000000000000000000000 (- 2)))
                (Money (Decimal False 9000000000000000000000000001 (- 2)))"
    by (simp add: money_eq_def decimal_eq_def d_sint_def)
  show ?thesis
    using r g rg g' ne by simp
qed

subsection \<open>\<open>fast_sum\<close> and \<open>fast_sum_with_none\<close>\<close>

lemma fast_sum_loop_all_None:
  "list_all (\<lambda>operand. operand = None) items \<Longrightarrow> fast_sum_loop n t items = (n, t)"
  by (induction items) auto

lemma zero_falsy: "\<not> money_with_vat_bool (MoneyWithVAT_of_decimals (decimal_of_int 0) (decimal_of_int 0))"
  by (simp add: MoneyWithVAT_of_decimals_def money_with_vat_bool_def money_bool_def decimal_bool_def
      decimal_of_int_def)

lemma fast_sum_with_none_Sequence:
  "fast_sum_with_none (Sequence items) =
     (if list_all (\<lambda>operand. operand = None) items then None
      else Some (fst (fast_sum (Sequence items))))"
  using zero_falsy
  by (auto simp: fast_sum_with_none_def fast_sum_def iterate_def fast_sum_loop_all_None
      split: prod.splits)

lemma fast_sum_with_none_Sequence_iff:
  "fast_sum_with_none (Sequence items) = None \<longleftrightarrow> (\<forall>operand\<in>set items. operand = None)"
  by (simp add: fast_sum_with_none_Sequence list_all_iff)

lemma fast_sum_empty:
  "fst (fast_sum (Sequence [])) = MoneyWithVAT (Money (decimal_of_int 0)) (Money (decimal_of_int 0))"
  "fst (fast_sum (Iterator [])) = MoneyWithVAT (Money (decimal_of_int 0)) (Money (decimal_of_int 0))"
  by (simp_all add: fast_sum_def iterate_def MoneyWithVAT_of_decimals_def decimal_bool_def decimal_of_int_def)

lemma on_grid_add: "on_grid k x \<Longrightarrow> on_grid k y \<Longrightarrow> on_grid k (x + y)"
  unfolding on_grid_def
proof (elim exE)
  fix i j :: int
  assume "x = of_int i * 10 powi (- int k)" "y = of_int j * 10 powi (- int k)"
  then have "x + y = of_int (i + j) * 10 powi (- int k)"
    by (simp add: distrib_right)
  then show "\<exists>l::int. x + y = of_int l * 10 powi (- int k)" by blast
qed

lemma on_grid_0 [simp]: "on_grid k 0"
  unfolding on_grid_def by (rule exI [of _ 0]) simp

lemma on_grid_decimal:
  assumes "- int k \<le> d_exp d"
  shows "on_grid k (decimal_val d)"
proof -
  have "(10::rat) powi (d_exp d) = 10 powi (d_exp d + int k) * 10 powi (- int k)"
    by (simp add: power_int_add [symmetric])
  also have "(10::rat) powi (d_exp d + int k) = of_int (10 ^ nat (d_exp d + int k))"
    using assms by (simp add: power_int_def)
  finally have "decimal_val d = of_int (d_sint d * 10 ^ nat (d_exp d + int k)) * 10 powi (- int k)"
    by (simp add: decimal_val_def)
  then show ?thesis unfolding on_grid_def by blast
qed

lemma on_grid_representable:
  assumes "on_grid k x" and "\<bar>x\<bar> * 10 ^ k < 10 ^ p"
  shows "representable p x"
proof -
  from assms(1) obtain i :: int where x: "x = of_int i * 10 powi (- int k)"
    unfolding on_grid_def by blast
  have "\<bar>x\<bar> = of_int \<bar>i\<bar> * 10 powi (- int k)"
    using pow10_pos [of "- int k"] by (simp add: x abs_mult)
  then have a: "\<bar>x\<bar> = of_nat (nat \<bar>i\<bar>) * 10 powi (- int k)"
    by simp
  have "\<bar>x\<bar> * 10 ^ k = of_nat (nat \<bar>i\<bar>) * (10 powi (- int k) * 10 ^ k)"
    by (simp add: a)
  also have "(10::rat) powi (- int k) * 10 ^ k = 1"
    by (simp add: power_int_minus)
  finally have "(of_nat (nat \<bar>i\<bar>) :: rat) < 10 ^ p"
    using assms(2) by simp
  then have "(of_nat (nat \<bar>i\<bar>) :: rat) < of_nat (10 ^ p)" by simp
  then have "nat \<bar>i\<bar> < 10 ^ p" by (simp only: of_nat_less_iff)
  with a show ?thesis unfolding representable_def by blast
qed

lemma present_simps [simp]:
  "present [] = []"
  "present (None # items) = present items"
  "present (Some m # items) = m # present items"
  by (simp_all add: present_def)

lemma falsy_values:
  "\<not> money_with_vat_bool m \<Longrightarrow> decimal_val (amount (net m)) = 0 \<and> decimal_val (amount (tax m)) = 0"
  by (simp add: money_with_vat_bool_def money_bool_iff)

lemma fast_sum_loop_exact:
  assumes "\<forall>m\<in>set (present items). - int k \<le> d_exp (amount (net m)) \<and> - int k \<le> d_exp (amount (tax m))"
    and "on_grid k (decimal_val n)" and "on_grid k (decimal_val t)"
    and "(\<bar>decimal_val n\<bar> + (\<Sum>m\<leftarrow>present items. \<bar>decimal_val (amount (net m))\<bar>)) * 10 ^ k < 10 ^ context_prec"
    and "(\<bar>decimal_val t\<bar> + (\<Sum>m\<leftarrow>present items. \<bar>decimal_val (amount (tax m))\<bar>)) * 10 ^ k < 10 ^ context_prec"
  shows "decimal_val (fst (fast_sum_loop n t items)) = decimal_val n + (\<Sum>m\<leftarrow>present items. decimal_val (amount (net m)))
       \<and> decimal_val (snd (fast_sum_loop n t items)) = decimal_val t + (\<Sum>m\<leftarrow>present items. decimal_val (amount (tax m)))"
  using assms
proof (induction items arbitrary: n t)
  case Nil
  show ?case by simp
next
  case (Cons operand rest)
  show ?case
  proof (cases operand)
    case None
    with Cons.prems Cons.IH [of n t] show ?thesis by simp
  next
    case (Some m)
    let ?N = "\<Sum>m\<leftarrow>present rest. \<bar>decimal_val (amount (net m))\<bar>"
    let ?T = "\<Sum>m\<leftarrow>present rest. \<bar>decimal_val (amount (tax m))\<bar>"
    have N0: "0 \<le> ?N" by (rule sum_list_nonneg) auto
    have T0: "0 \<le> ?T" by (rule sum_list_nonneg) auto
    have grid: "\<forall>m\<in>set (present rest). - int k \<le> d_exp (amount (net m)) \<and> - int k \<le> d_exp (amount (tax m))"
      and gm: "- int k \<le> d_exp (amount (net m))" "- int k \<le> d_exp (amount (tax m))"
      using Cons.prems(1) Some by simp_all
    have bn: "(\<bar>decimal_val n\<bar> + \<bar>decimal_val (amount (net m))\<bar> + ?N) * 10 ^ k < 10 ^ context_prec"
      and bt: "(\<bar>decimal_val t\<bar> + \<bar>decimal_val (amount (tax m))\<bar> + ?T) * 10 ^ k < 10 ^ context_prec"
      using Cons.prems(4,5) Some by (simp_all add: add.assoc)
    show ?thesis
    proof (cases "money_with_vat_bool m")
      case False
      then have z: "decimal_val (amount (net m)) = 0" "decimal_val (amount (tax m)) = 0"
        using falsy_values by blast+
      have "decimal_val (fst (fast_sum_loop n t rest)) = decimal_val n + (\<Sum>m\<leftarrow>present rest. decimal_val (amount (net m)))
       \<and> decimal_val (snd (fast_sum_loop n t rest)) = decimal_val t + (\<Sum>m\<leftarrow>present rest. decimal_val (amount (tax m)))"
        using grid Cons.prems(2,3) bn bt unfolding z by (intro Cons.IH) simp_all
      with False Some z show ?thesis by simp
    next
      case True
      let ?n = "decimal_add n (amount (net m))"
      let ?t = "decimal_add t (amount (tax m))"
      have gn: "on_grid k (decimal_val n + decimal_val (amount (net m)))"
        and gt: "on_grid k (decimal_val t + decimal_val (amount (tax m)))"
        using Cons.prems(2,3) gm by (simp_all add: on_grid_add on_grid_decimal)
      have p: "(0::rat) < 10 ^ k" by simp
      have "\<bar>decimal_val n + decimal_val (amount (net m))\<bar> * 10 ^ k
            \<le> (\<bar>decimal_val n\<bar> + \<bar>decimal_val (amount (net m))\<bar> + ?N) * 10 ^ k"
        using N0 p by (intro mult_right_mono) (simp_all add: abs_triangle_ineq add_increasing2)
      then have sn: "\<bar>decimal_val n + decimal_val (amount (net m))\<bar> * 10 ^ k < 10 ^ context_prec"
        using bn by (rule le_less_trans)
      have "\<bar>decimal_val t + decimal_val (amount (tax m))\<bar> * 10 ^ k
            \<le> (\<bar>decimal_val t\<bar> + \<bar>decimal_val (amount (tax m))\<bar> + ?T) * 10 ^ k"
        using T0 p by (intro mult_right_mono) (simp_all add: abs_triangle_ineq add_increasing2)
      then have st: "\<bar>decimal_val t + decimal_val (amount (tax m))\<bar> * 10 ^ k < 10 ^ context_prec"
        using bt by (rule le_less_trans)
      have vn: "decimal_val ?n = decimal_val n + decimal_val (amount (net m))"
        by (rule decimal_val_add) (rule on_grid_representable [OF gn sn])
      have vt: "decimal_val ?t = decimal_val t + decimal_val (amount (tax m))"
        by (rule decimal_val_add) (rule on_grid_representable [OF gt st])
      have bn': "(\<bar>decimal_val ?n\<bar> + ?N) * 10 ^ k < 10 ^ context_prec"
      proof -
        have "(\<bar>decimal_val ?n\<bar> + ?N) * 10 ^ k
              \<le> (\<bar>decimal_val n\<bar> + \<bar>decimal_val (amount (net m))\<bar> + ?N) * 10 ^ k"
          unfolding vn using p by (intro mult_right_mono) (simp_all add: abs_triangle_ineq)
        then show ?thesis using bn by (rule le_less_trans)
      qed
      have bt': "(\<bar>decimal_val ?t\<bar> + ?T) * 10 ^ k < 10 ^ context_prec"
      proof -
        have "(\<bar>decimal_val ?t\<bar> + ?T) * 10 ^ k
              \<le> (\<bar>decimal_val t\<bar> + \<bar>decimal_val (amount (tax m))\<bar> + ?T) * 10 ^ k"
          unfolding vt using p by (intro mult_right_mono) (simp_all add: abs_triangle_ineq)
        then show ?thesis using bt by (rule le_less_trans)
      qed
      have "decimal_val (fst (fast_sum_loop ?n ?t rest)) = decimal_val ?n + (\<Sum>m\<leftarrow>present rest. decimal_val (amount (net m)))
       \<and> decimal_val (snd (fast_sum_loop ?n ?t rest)) = decimal_val ?t + (\<Sum>m\<leftarrow>present rest. decimal_val (amount (tax m)))"
        using grid gn gt bn' bt' unfolding vn [symmetric] vt [symmetric] by (intro Cons.IH)
      with True Some vn vt show ?thesis by (simp add: add.assoc)
    qed
  qed
qed

lemma MoneyWithVAT_of_decimals_val:
  "decimal_val (amount (net (MoneyWithVAT_of_decimals n t))) = decimal_val n"
  "decimal_val (amount (tax (MoneyWithVAT_of_decimals n t))) = decimal_val t"
  by (simp_all add: MoneyWithVAT_of_decimals_def decimal_bool_def)

lemma fast_sum_exact:
  assumes "\<forall>m\<in>set (present items). - int k \<le> d_exp (amount (net m)) \<and> - int k \<le> d_exp (amount (tax m))"
    and "(\<Sum>m\<leftarrow>present items. \<bar>decimal_val (amount (net m))\<bar>) * 10 ^ k < 10 ^ context_prec"
    and "(\<Sum>m\<leftarrow>present items. \<bar>decimal_val (amount (tax m))\<bar>) * 10 ^ k < 10 ^ context_prec"
    and "ops = Sequence items \<or> ops = Iterator items"
  shows "decimal_val (amount (net (fst (fast_sum ops)))) = (\<Sum>m\<leftarrow>present items. decimal_val (amount (net m)))
       \<and> decimal_val (amount (tax (fst (fast_sum ops)))) = (\<Sum>m\<leftarrow>present items. decimal_val (amount (tax m)))"
proof -
  have it: "fst (iterate ops) = items"
    using assms(4) by (auto simp: iterate_def)
  have "decimal_val (fst (fast_sum_loop (decimal_of_int 0) (decimal_of_int 0) items))
          = decimal_val (decimal_of_int 0) + (\<Sum>m\<leftarrow>present items. decimal_val (amount (net m)))
       \<and> decimal_val (snd (fast_sum_loop (decimal_of_int 0) (decimal_of_int 0) items))
          = decimal_val (decimal_of_int 0) + (\<Sum>m\<leftarrow>present items. decimal_val (amount (tax m)))"
    using assms(1-3) by (intro fast_sum_loop_exact [where k = k]) simp_all
  then show ?thesis
    using it by (auto simp: fast_sum_def MoneyWithVAT_of_decimals_val split: prod.splits)
qed

lemma fast_sum_with_none_Iterator:
  "fast_sum_with_none (Iterator items) =
     (if money_with_vat_bool (fst (fast_sum (Iterator items)))
      then Some (fst (fast_sum (Iterator items))) else None)"
  by (simp add: fast_sum_with_none_def fast_sum_def iterate_def split: prod.splits)

lemma fast_sum_examples:
  "fst (fast_sum (Sequence [Some (vat 100 19), None, Some (vat 0 0), Some (vat 1 2)])) = vat 101 21"
  "fast_sum_with_none (Sequence [Some (vat 100 19), None, Some (vat (- 100) (- 19))]) = Some (vat 0 0)"
  "fast_sum_with_none (Sequence []) = None"
  "fast_sum_with_none (Sequence [None, None]) = None"
  "fast_sum_with_none (Iterator [None, None]) = None"
  by (simp_all add: fast_sum_with_none_def fast_sum_def iterate_def MoneyWithVAT_of_decimals_def
      vat_def decimal_bool_def decimal_of_int_def money_with_vat_bool_def money_bool_def d_sint_def
      dec_ev cong: let_weak_cong)

text \<open>
  C5. \<open>fast_sum\<close> adds the nets and the taxes of the operands that are not \<open>None\<close>
  (lemma \<open>fast_sum_exact\<close>, for sums that fit the 28 digits of the context), and
  \<open>fast_sum([])\<close> is \<open>MoneyWithVAT(0, 0)\<close> (lemma \<open>fast_sum_empty\<close>). For a list or a tuple
  \<open>fast_sum_with_none\<close> returns \<open>None\<close> exactly when every operand is \<open>None\<close> (lemma
  \<open>fast_sum_with_none_Sequence_iff\<close>). For a one-shot iterator it does not: \<open>fast_sum\<close> has
  consumed the iterator when \<open>all(operand is None for operand in operands)\<close> iterates it
  again, so that test is vacuously true, and
  \<open>fast_sum_with_none(iter([MoneyWithVAT(0, 0)]))\<close> returns \<open>None\<close>, although an operand is
  present; the same operands in a list give \<open>MoneyWithVAT(0, 0)\<close>.
\<close>

theorem fast_sum_with_none_iterator:
  "fast_sum_with_none (Iterator [Some (vat 0 0)]) = None
   \<and> fast_sum_with_none (Sequence [Some (vat 0 0)]) = Some (vat 0 0)
   \<and> fst (fast_sum (Iterator [Some (vat 0 0)])) = vat 0 0
   \<and> fast_sum_with_none (Iterator [Some (vat 1 0), Some (vat (- 1) 0)]) = None
   \<and> fast_sum_with_none (Sequence [Some (vat 1 0), Some (vat (- 1) 0)]) = Some (vat 0 0)"
  by (simp add: fast_sum_with_none_def fast_sum_def iterate_def MoneyWithVAT_of_decimals_def
      vat_def decimal_bool_def decimal_of_int_def money_with_vat_bool_def money_bool_def d_sint_def
      dec_ev cong: let_weak_cong)

end
